theory Spec2Isabelle
  imports Complex_Main
begin

section \<open>Errors, tensors and the random generator of the tensor library\<close>

text \<open>
  The classifier of \<^verbatim>\<open>model.py\<close> is a composition of primitives of the tensor
  library: an embedding table, a stacked recurrent encoder, a linear layer, dropout and
  the initialisers \<^verbatim>\<open>xavier_uniform_\<close> and \<^verbatim>\<open>zeros_\<close>. Every exception
  that the constructor or the forward pass can raise is a value of \<open>error\<close>.
\<close>

datatype error =
  AssertionError | RuntimeError | ValueError | IndexError | ZeroDivisionError | AttributeError

text \<open>A tensor is its shape and its entries in row-major order. Entries are real numbers.\<close>

record tensor =
  shape :: "nat list"
  data :: "real list"

definition numel :: "nat list \<Rightarrow> nat" where
  "numel s = prod_list s"

text \<open>\<^verbatim>\<open>torch.empty\<close>: a negative dimension is rejected. The memory is not
  initialised; every caller below overwrites it.\<close>

definition empty_tensor :: "int list \<Rightarrow> error + tensor" where
  "empty_tensor dims =
     (if list_ex (\<lambda>d. d < 0) dims then Inl RuntimeError
      else Inr \<lparr>shape = map nat dims, data = replicate (numel (map nat dims)) 0\<rparr>)"

text \<open>Row \<open>i\<close> of a matrix, and the matrix as the list of its rows.\<close>

definition row :: "tensor \<Rightarrow> nat \<Rightarrow> real list" where
  "row t i = take (shape t ! 1) (drop (i * (shape t ! 1)) (data t))"

definition rows :: "tensor \<Rightarrow> real list list" where
  "rows t = map (row t) [0..<shape t ! 0]"

text \<open>\<^verbatim>\<open>weight[i].fill_(v)\<close> on a matrix.\<close>

definition fill_row :: "tensor \<Rightarrow> nat \<Rightarrow> real \<Rightarrow> tensor" where
  "fill_row t i v =
     (let c = shape t ! 1
      in t\<lparr>data := take (i * c) (data t) @ replicate c v @ drop (Suc i * c) (data t)\<rparr>)"

text \<open>
  The global random generator: the stream of uniform draws from \<open>[0, 1)\<close>, the stream of
  standard normal draws, and the number of draws consumed so far. A sampling primitive
  takes one draw for each entry it fills and advances the generator.
\<close>

record generator =
  uniform01 :: "nat \<Rightarrow> real"
  stdnormal :: "nat \<Rightarrow> real"
  offset :: nat

definition draws :: "(nat \<Rightarrow> real) \<Rightarrow> nat \<Rightarrow> generator \<Rightarrow> real list" where
  "draws f n g = map (\<lambda>i. f (offset g + i)) [0..<n]"

definition advance :: "nat \<Rightarrow> generator \<Rightarrow> generator" where
  "advance n g = g\<lparr>offset := offset g + n\<rparr>"

definition uniform_fill :: "real \<Rightarrow> real \<Rightarrow> tensor \<Rightarrow> generator \<Rightarrow> tensor \<times> generator" where
  "uniform_fill a b t g =
     (let n = numel (shape t)
      in (t\<lparr>data := map (\<lambda>u. a + (b - a) * u) (draws (uniform01 g) n g)\<rparr>, advance n g))"

definition normal_fill :: "real \<Rightarrow> real \<Rightarrow> tensor \<Rightarrow> generator \<Rightarrow> tensor \<times> generator" where
  "normal_fill mean std t g =
     (let n = numel (shape t)
      in (t\<lparr>data := map (\<lambda>z. mean + std * z) (draws (stdnormal g) n g)\<rparr>, advance n g))"

definition zeros_fill :: "tensor \<Rightarrow> tensor" where
  "zeros_fill t = t\<lparr>data := replicate (numel (shape t)) 0\<rparr>"

text \<open>\<^verbatim>\<open>_calculate_fan_in_and_fan_out\<close> and \<^verbatim>\<open>xavier_uniform_\<close> (gain 1).\<close>

definition calculate_fan_in_and_fan_out :: "tensor \<Rightarrow> error + (nat \<times> nat)" where
  "calculate_fan_in_and_fan_out t =
     (if length (shape t) < 2 then Inl ValueError
      else let receptive_field_size = prod_list (drop 2 (shape t))
           in Inr (shape t ! 1 * receptive_field_size, shape t ! 0 * receptive_field_size))"

definition xavier_bound :: "nat \<Rightarrow> nat \<Rightarrow> real" where
  "xavier_bound fan_in fan_out = sqrt 3 * sqrt (2 / real (fan_in + fan_out))"

definition xavier_uniform :: "tensor \<Rightarrow> generator \<Rightarrow> error + (tensor \<times> generator)" where
  "xavier_uniform t g =
     (case calculate_fan_in_and_fan_out t of
        Inl e \<Rightarrow> Inl e
      | Inr (fan_in, fan_out) \<Rightarrow>
          if fan_in + fan_out = 0 then Inl ZeroDivisionError
          else let a = xavier_bound fan_in fan_out in Inr (uniform_fill (- a) a t g))"

section \<open>Parameter names\<close>

text \<open>Python's \<^verbatim>\<open>sub in name\<close> on strings, and \<^verbatim>\<open>str\<close> of a layer number.\<close>

fun is_prefix :: "string \<Rightarrow> string \<Rightarrow> bool" where
  "is_prefix [] ys = True"
| "is_prefix (x # xs) [] = False"
| "is_prefix (x # xs) (y # ys) = (x = y \<and> is_prefix xs ys)"

fun str_in :: "string \<Rightarrow> string \<Rightarrow> bool" where
  "str_in sub [] = (sub = [])"
| "str_in sub (c # cs) = (is_prefix sub (c # cs) \<or> str_in sub cs)"

definition digit_char :: "nat \<Rightarrow> char" where
  "digit_char d = ''0123456789'' ! d"

fun str_of_nat :: "nat \<Rightarrow> string" where
  "str_of_nat n = (if n < 10 then [digit_char n] else str_of_nat (n div 10) @ [digit_char (n mod 10)])"

declare str_of_nat.simps [simp del]

section \<open>The modules and their constructors\<close>

record embedding_mod =
  num_embeddings :: nat
  emb_dim :: nat
  emb_padding_idx :: nat

record lstm_mod =
  input_size :: nat
  hidden_size :: nat
  lstm_num_layers :: nat
  lstm_dropout :: real
  lstm_bidirectional :: bool

record linear_mod =
  in_features :: nat
  out_features :: nat

text \<open>
  \<^verbatim>\<open>nn.Embedding(num_embeddings, embedding_dim, padding_idx=padding_idx)\<close>: a positive
  padding index must be below the table size, a negative one counts from the end; the
  table is filled with normal draws and its padding row is then set to zero.
\<close>

definition Embedding ::
  "int \<Rightarrow> int \<Rightarrow> int \<Rightarrow> generator \<Rightarrow> error + (embedding_mod \<times> tensor \<times> generator)" where
  "Embedding n d pad g =
     (if pad > 0 \<and> \<not> pad < n then Inl AssertionError
      else if pad < 0 \<and> \<not> pad \<ge> - n then Inl AssertionError
      else let pad' = (if pad < 0 then n + pad else pad)
           in case empty_tensor [n, d] of
                Inl e \<Rightarrow> Inl e
              | Inr w \<Rightarrow>
                  let (w1, g1) = normal_fill 0 1 w g
                  in if \<not> pad' < n then Inl IndexError
                     else Inr (\<lparr>num_embeddings = nat n, emb_dim = nat d, emb_padding_idx = nat pad'\<rparr>,
                               fill_row w1 (nat pad') 0, g1))"

text \<open>
  \<^verbatim>\<open>nn.LSTM\<close>: the flat list of weights, layer by layer and direction by direction,
  each cell with \<^verbatim>\<open>weight_ih\<close>, \<^verbatim>\<open>weight_hh\<close>, \<^verbatim>\<open>bias_ih\<close>, \<^verbatim>\<open>bias_hh\<close>.
\<close>

definition num_directions :: "bool \<Rightarrow> nat" where
  "num_directions bi = (if bi then 2 else 1)"

definition cell_specs :: "nat \<Rightarrow> nat \<Rightarrow> bool \<Rightarrow> nat \<Rightarrow> nat \<Rightarrow> (string \<times> nat list) list" where
  "cell_specs inp hid bi layer direction =
     (let layer_input_size = (if layer = 0 then inp else hid * num_directions bi);
          gate_size = 4 * hid;
          suffix = (if direction = 1 then ''_reverse'' else '''');
          l = str_of_nat layer
      in [(''weight_ih_l'' @ l @ suffix, [gate_size, layer_input_size]),
          (''weight_hh_l'' @ l @ suffix, [gate_size, hid]),
          (''bias_ih_l'' @ l @ suffix, [gate_size]),
          (''bias_hh_l'' @ l @ suffix, [gate_size])])"

definition layer_specs :: "nat \<Rightarrow> nat \<Rightarrow> bool \<Rightarrow> nat \<Rightarrow> (string \<times> nat list) list" where
  "layer_specs inp hid bi layer =
     concat (map (cell_specs inp hid bi layer) [0..<num_directions bi])"

definition lstm_specs :: "nat \<Rightarrow> nat \<Rightarrow> bool \<Rightarrow> nat \<Rightarrow> (string \<times> nat list) list" where
  "lstm_specs inp hid bi nl = concat (map (layer_specs inp hid bi) [0..<nl])"

text \<open>\<^verbatim>\<open>reset_parameters\<close>: every weight in turn is filled by \<^verbatim>\<open>uniform_\<close>.\<close>

fun uniform_all ::
  "real \<Rightarrow> real \<Rightarrow> (string \<times> tensor) list \<Rightarrow> generator \<Rightarrow> (string \<times> tensor) list \<times> generator" where
  "uniform_all a b [] g = ([], g)"
| "uniform_all a b ((name, t) # ps) g =
     (let (t', g') = uniform_fill a b t g;
          (ps', g'') = uniform_all a b ps g'
      in ((name, t') # ps', g''))"

definition LSTM ::
  "int \<Rightarrow> int \<Rightarrow> int \<Rightarrow> real \<Rightarrow> bool \<Rightarrow> generator
     \<Rightarrow> error + (lstm_mod \<times> (string \<times> tensor) list \<times> generator)" where
  "LSTM inp hid nl dropout bi g =
     (if \<not> (0 \<le> dropout \<and> dropout \<le> 1) then Inl ValueError
      else if hid \<le> 0 then Inl ValueError
      else if nl \<le> 0 then Inl ValueError
      else if inp < 0 then Inl RuntimeError
      else let ps = map (\<lambda>(name, s). (name, \<lparr>shape = s, data = replicate (numel s) 0\<rparr>))
                        (lstm_specs (nat inp) (nat hid) bi (nat nl));
               stdv = 1 / sqrt (real_of_int hid);
               (ps', g') = uniform_all (- stdv) stdv ps g
           in Inr (\<lparr>input_size = nat inp, hidden_size = nat hid, lstm_num_layers = nat nl,
                     lstm_dropout = dropout, lstm_bidirectional = bi\<rparr>, ps', g'))"

text \<open>
  \<^verbatim>\<open>nn.Linear(in_features, out_features)\<close>: the weight has shape
  \<open>[out_features, in_features]\<close>; \<^verbatim>\<open>kaiming_uniform_\<close> leaves a tensor without
  entries alone.
\<close>

definition kaiming_uniform :: "tensor \<Rightarrow> generator \<Rightarrow> error + (tensor \<times> generator)" where
  "kaiming_uniform t g =
     (if 0 \<in> set (shape t) then Inr (t, g)
      else case calculate_fan_in_and_fan_out t of
             Inl e \<Rightarrow> Inl e
           | Inr (fan_in, fan_out) \<Rightarrow>
               let gain = sqrt (2 / (1 + (sqrt 5)\<^sup>2));
                   std = gain / sqrt (real fan_in);
                   bound = sqrt 3 * std
               in Inr (uniform_fill (- bound) bound t g))"

definition Linear ::
  "int \<Rightarrow> int \<Rightarrow> generator \<Rightarrow> error + (linear_mod \<times> tensor \<times> tensor \<times> generator)" where
  "Linear n_in n_out g =
     (case empty_tensor [n_out, n_in] of
        Inl e \<Rightarrow> Inl e
      | Inr w \<Rightarrow>
     (case empty_tensor [n_out] of
        Inl e \<Rightarrow> Inl e
      | Inr b \<Rightarrow>
     (case kaiming_uniform w g of
        Inl e \<Rightarrow> Inl e
      | Inr (w', g1) \<Rightarrow>
     (case calculate_fan_in_and_fan_out w' of
        Inl e \<Rightarrow> Inl e
      | Inr (fan_in, fan_out) \<Rightarrow>
          let bound = (if fan_in > 0 then 1 / sqrt (real fan_in) else 0);
              (b', g2) = uniform_fill (- bound) bound b g1
          in Inr (\<lparr>in_features = nat n_in, out_features = nat n_out\<rparr>, w', b', g2)))))"

text \<open>\<^verbatim>\<open>nn.Dropout(p)\<close>.\<close>

definition Dropout :: "real \<Rightarrow> error + real" where
  "Dropout p = (if p < 0 \<or> p > 1 then Inl ValueError else Inr p)"

section \<open>The classifier\<close>

record config =
  vocab_size :: int
  embedding_dim :: int
  hidden_dim :: int
  output_dim :: int
  padding_idx :: int
  bidirectional :: bool
  num_layers :: int
  dropout_rate :: real

text \<open>
  The module tree with its attributes, the training flag of \<^verbatim>\<open>nn.Module\<close> and the
  registered parameters under their full names, in the order of
  \<^verbatim>\<open>named_parameters()\<close>.
\<close>

record classifier =
  embedding :: embedding_mod
  lstm :: lstm_mod
  fc :: linear_mod
  dropout_p :: real
  training :: bool
  named_parameters :: "(string \<times> tensor) list"

text \<open>The body of the loop of \<^verbatim>\<open>_init_weights\<close>, and the loop.\<close>

definition init_param :: "string \<Rightarrow> tensor \<Rightarrow> generator \<Rightarrow> error + (tensor \<times> generator)" where
  "init_param name param g =
     (if str_in ''weight'' name then xavier_uniform param g
      else if str_in ''bias'' name then Inr (zeros_fill param, g)
      else Inr (param, g))"

fun init_params ::
  "(string \<times> tensor) list \<Rightarrow> generator \<Rightarrow> error + ((string \<times> tensor) list \<times> generator)" where
  "init_params [] g = Inr ([], g)"
| "init_params ((name, param) # ps) g =
     (case init_param name param g of
        Inl e \<Rightarrow> Inl e
      | Inr (param', g') \<Rightarrow>
          (case init_params ps g' of
             Inl e \<Rightarrow> Inl e
           | Inr (ps', g'') \<Rightarrow> Inr ((name, param') # ps', g'')))"

definition init_weights :: "classifier \<Rightarrow> generator \<Rightarrow> error + (classifier \<times> generator)" where
  "init_weights m g =
     (case init_params (named_parameters m) g of
        Inl e \<Rightarrow> Inl e
      | Inr (ps, g') \<Rightarrow> Inr (m\<lparr>named_parameters := ps\<rparr>, g'))"

text \<open>\<^verbatim>\<open>LSTMClassifier.__init__\<close>.\<close>

definition LSTMClassifier :: "config \<Rightarrow> generator \<Rightarrow> error + (classifier \<times> generator)" where
  "LSTMClassifier c g =
     (case Embedding (vocab_size c) (embedding_dim c) (padding_idx c) g of
        Inl e \<Rightarrow> Inl e
      | Inr (emb, emb_w, g1) \<Rightarrow>
     (case LSTM (embedding_dim c) (hidden_dim c) (num_layers c)
                (if num_layers c > 1 then dropout_rate c else 0) (bidirectional c) g1 of
        Inl e \<Rightarrow> Inl e
      | Inr (rnn, rnn_ps, g2) \<Rightarrow>
     (let lstm_output_dim = (if bidirectional c then hidden_dim c * 2 else hidden_dim c)
      in case Linear lstm_output_dim (output_dim c) g2 of
        Inl e \<Rightarrow> Inl e
      | Inr (lin, fc_w, fc_b, g3) \<Rightarrow>
     (case Dropout (dropout_rate c) of
        Inl e \<Rightarrow> Inl e
      | Inr p \<Rightarrow>
          init_weights
            \<lparr>embedding = emb, lstm = rnn, fc = lin, dropout_p = p, training = True,
             named_parameters =
               [(''embedding.weight'', emb_w)]
               @ map (\<lambda>(name, t). (''lstm.'' @ name, t)) rnn_ps
               @ [(''fc.weight'', fc_w), (''fc.bias'', fc_b)]\<rparr> g3))))"

text \<open>The mode switches \<^verbatim>\<open>train()\<close> and \<^verbatim>\<open>eval()\<close> of \<^verbatim>\<open>nn.Module\<close>.\<close>

definition train_mode :: "classifier \<Rightarrow> classifier" where
  "train_mode m = m\<lparr>training := True\<rparr>"

definition eval_mode :: "classifier \<Rightarrow> classifier" where
  "eval_mode m = m\<lparr>training := False\<rparr>"

section \<open>The forward pass\<close>

type_synonym mat = "real list list"
type_synonym tensor3 = "real list list list"

text \<open>
  The embedding lookup: an index outside \<open>[0, num_embeddings)\<close> raises; otherwise each
  index is replaced by its row of the table.
\<close>

definition embedding_lookup :: "tensor \<Rightarrow> int list list \<Rightarrow> error + tensor3" where
  "embedding_lookup w x =
     (if list_ex (list_ex (\<lambda>i. i < 0 \<or> i \<ge> int (shape w ! 0))) x then Inl IndexError
      else Inr (map (map (\<lambda>i. row w (nat i))) x))"

text \<open>
  Dropout: the identity when \<open>p = 0\<close>, outside training, or on a tensor without entries;
  all zeros when \<open>p = 1\<close>; otherwise entry \<open>k\<close> (in row-major order) is kept and
  scaled by \<open>1 / (1 - p)\<close> when draw \<open>k\<close> is below \<open>1 - p\<close>, and zeroed when not.
\<close>

definition keep_scale :: "real \<Rightarrow> real \<Rightarrow> real" where
  "keep_scale p u = (if u < 1 - p then 1 / (1 - p) else 0)"

fun mask_vec :: "(nat \<Rightarrow> real) \<Rightarrow> nat \<Rightarrow> real list \<Rightarrow> real list" where
  "mask_vec f k [] = []"
| "mask_vec f k (x # xs) = x * f k # mask_vec f (Suc k) xs"

fun mask_mat :: "(nat \<Rightarrow> real) \<Rightarrow> nat \<Rightarrow> mat \<Rightarrow> mat" where
  "mask_mat f k [] = []"
| "mask_mat f k (r # rs) = mask_vec f k r # mask_mat f (k + length r) rs"

definition numel_mat :: "mat \<Rightarrow> nat" where
  "numel_mat a = sum_list (map length a)"

fun mask_tensor3 :: "(nat \<Rightarrow> real) \<Rightarrow> nat \<Rightarrow> tensor3 \<Rightarrow> tensor3" where
  "mask_tensor3 f k [] = []"
| "mask_tensor3 f k (a # as) = mask_mat f k a # mask_tensor3 f (k + numel_mat a) as"

definition numel_tensor3 :: "tensor3 \<Rightarrow> nat" where
  "numel_tensor3 x = sum_list (map numel_mat x)"

definition dropout :: "real \<Rightarrow> bool \<Rightarrow> tensor3 \<Rightarrow> generator \<Rightarrow> tensor3 \<times> generator" where
  "dropout p train x g =
     (if p = 0 \<or> \<not> train \<or> numel_tensor3 x = 0 then (x, g)
      else if p = 1 then (map (map (map (\<lambda>v. v * 0))) x, g)
      else (mask_tensor3 (\<lambda>k. keep_scale p (uniform01 g (offset g + k))) 0 x,
            advance (numel_tensor3 x) g))"

text \<open>The LSTM cell: gates in the order input, forget, cell, output.\<close>

definition sigmoid :: "real \<Rightarrow> real" where
  "sigmoid x = 1 / (1 + exp (- x))"

definition matvec :: "tensor \<Rightarrow> real list \<Rightarrow> real list" where
  "matvec w x = map (\<lambda>r. sum_list (map2 (*) r x)) (rows w)"

definition vadd :: "real list \<Rightarrow> real list \<Rightarrow> real list" where
  "vadd x y = map2 (+) x y"

definition vmul :: "real list \<Rightarrow> real list \<Rightarrow> real list" where
  "vmul x y = map2 (*) x y"

definition lstm_cell ::
  "nat \<Rightarrow> tensor list \<Rightarrow> real list \<Rightarrow> real list \<times> real list \<Rightarrow> real list \<times> real list" where
  "lstm_cell H ws x hc =
     (let (h, c) = hc;
          gates = vadd (vadd (matvec (ws ! 0) x) (data (ws ! 2)))
                       (vadd (matvec (ws ! 1) h) (data (ws ! 3)));
          i_gate = map sigmoid (take H gates);
          f_gate = map sigmoid (take H (drop H gates));
          g_gate = map tanh (take H (drop (2 * H) gates));
          o_gate = map sigmoid (take H (drop (3 * H) gates));
          c' = vadd (vmul f_gate c) (vmul i_gate g_gate);
          h' = vmul o_gate (map tanh c')
      in (h', c'))"

text \<open>One direction of one layer over one sequence: the outputs of all time steps and
  the final hidden and cell state.\<close>

fun lstm_seq ::
  "nat \<Rightarrow> tensor list \<Rightarrow> real list \<times> real list \<Rightarrow> mat \<Rightarrow> mat \<times> real list \<times> real list" where
  "lstm_seq H ws hc [] = ([], fst hc, snd hc)"
| "lstm_seq H ws hc (x # xs) =
     (let hc' = lstm_cell H ws x hc;
          (ys, hT, cT) = lstm_seq H ws hc' xs
      in (fst hc' # ys, hT, cT))"

definition lstm_direction ::
  "nat \<Rightarrow> tensor list \<Rightarrow> bool \<Rightarrow> real list \<times> real list \<Rightarrow> mat \<Rightarrow> mat \<times> real list \<times> real list" where
  "lstm_direction H ws reverse hc xs =
     (let (ys, hT, cT) = lstm_seq H ws hc (if reverse then rev xs else xs)
      in (if reverse then rev ys else ys, hT, cT))"

text \<open>
  One layer over a batch. \<open>ws\<close> holds the four weights of the forward cell and, when
  bidirectional, the four of the backward cell; \<open>h0\<close> and \<open>c0\<close> hold one initial state
  (batch by hidden) for each direction. The result is the output sequence (the two
  directions joined along the feature axis) and the final states of each direction.
\<close>

definition lstm_layer ::
  "nat \<Rightarrow> bool \<Rightarrow> tensor list \<Rightarrow> mat list \<Rightarrow> mat list \<Rightarrow> tensor3
     \<Rightarrow> tensor3 \<times> mat list \<times> mat list" where
  "lstm_layer H bi ws h0 c0 inp =
     (let fwd = map (\<lambda>(b, xs). lstm_direction H (take 4 ws) False (h0 ! 0 ! b, c0 ! 0 ! b) xs)
                    (enumerate 0 inp)
      in if bi then
           let bwd = map (\<lambda>(b, xs). lstm_direction H (take 4 (drop 4 ws)) True
                                        (h0 ! 1 ! b, c0 ! 1 ! b) xs)
                         (enumerate 0 inp)
           in (map2 (\<lambda>r s. map2 (@) (fst r) (fst s)) fwd bwd,
               [map (\<lambda>r. fst (snd r)) fwd, map (\<lambda>r. fst (snd r)) bwd],
               [map (\<lambda>r. snd (snd r)) fwd, map (\<lambda>r. snd (snd r)) bwd])
         else (map fst fwd, [map (\<lambda>r. fst (snd r)) fwd], [map (\<lambda>r. snd (snd r)) fwd]))"

text \<open>
  The stack: \<open>n\<close> layers remain. Dropout is applied to the output of every layer but the
  last. The final states are collected layer by layer, direction by direction.
\<close>

fun lstm_layers ::
  "nat \<Rightarrow> lstm_mod \<Rightarrow> bool \<Rightarrow> tensor list \<Rightarrow> mat list \<Rightarrow> mat list \<Rightarrow> tensor3 \<Rightarrow> generator
     \<Rightarrow> tensor3 \<times> mat list \<times> mat list \<times> generator" where
  "lstm_layers 0 rnn train ws h0 c0 inp g = (inp, [], [], g)"
| "lstm_layers (Suc n) rnn train ws h0 c0 inp g =
     (let D = num_directions (lstm_bidirectional rnn);
          (out, hn, cn) = lstm_layer (hidden_size rnn) (lstm_bidirectional rnn)
                            (take (4 * D) ws) (take D h0) (take D c0) inp;
          (out', g') = (if n > 0 then dropout (lstm_dropout rnn) train out g else (out, g));
          (y, hs, cs, g'') = lstm_layers n rnn train (drop (4 * D) ws) (drop D h0) (drop D c0) out' g'
      in (y, hn @ hs, cn @ cs, g''))"

definition zeros3 :: "nat \<Rightarrow> nat \<Rightarrow> nat \<Rightarrow> mat list" where
  "zeros3 a b c = replicate a (replicate b (replicate c 0))"

text \<open>
  \<^verbatim>\<open>nn.LSTM.forward(input, hx=None)\<close> with \<^verbatim>\<open>batch_first=True\<close>: the feature size
  of the input must be \<open>input_size\<close>, a sequence must not be empty, and without \<open>hx\<close> the
  initial hidden and cell states are zero.
\<close>

definition LSTM_forward ::
  "lstm_mod \<Rightarrow> bool \<Rightarrow> tensor list \<Rightarrow> tensor3 \<Rightarrow> (mat list \<times> mat list) option \<Rightarrow> generator
     \<Rightarrow> error + (tensor3 \<times> mat list \<times> mat list \<times> generator)" where
  "LSTM_forward rnn train ws inp hx g =
     (if list_ex (list_ex (\<lambda>v. length v \<noteq> input_size rnn)) inp then Inl RuntimeError
      else if list_ex (\<lambda>xs. xs = []) inp then Inl RuntimeError
      else let D = num_directions (lstm_bidirectional rnn);
               (h0, c0) = (case hx of
                             None \<Rightarrow> (zeros3 (lstm_num_layers rnn * D) (length inp) (hidden_size rnn),
                                      zeros3 (lstm_num_layers rnn * D) (length inp) (hidden_size rnn))
                           | Some hc \<Rightarrow> hc)
           in Inr (lstm_layers (lstm_num_layers rnn) rnn train ws h0 c0 inp g))"

text \<open>Python indexing along the first axis: a negative index counts from the end.\<close>

definition py_index :: "'a list \<Rightarrow> int \<Rightarrow> error + 'a" where
  "py_index xs i =
     (let n = int (length xs); j = (if i < 0 then n + i else i)
      in if 0 \<le> j \<and> j < n then Inr (xs ! nat j) else Inl IndexError)"

text \<open>\<^verbatim>\<open>torch.cat((a, b), dim=1)\<close> on two matrices.\<close>

definition cat_dim1 :: "mat \<Rightarrow> mat \<Rightarrow> error + mat" where
  "cat_dim1 a b = (if length a \<noteq> length b then Inl RuntimeError else Inr (map2 (@) a b))"

text \<open>\<^verbatim>\<open>nn.Linear.forward\<close>: \<open>x W\<^sup>T + b\<close>, for each row of \<open>x\<close>.\<close>

definition Linear_forward :: "tensor \<Rightarrow> tensor \<Rightarrow> mat \<Rightarrow> error + mat" where
  "Linear_forward w b x =
     (if list_ex (\<lambda>r. length r \<noteq> shape w ! 1) x then Inl RuntimeError
      else Inr (map (\<lambda>r. vadd (matvec w r) (data b)) x))"

definition get_parameter :: "classifier \<Rightarrow> string \<Rightarrow> error + tensor" where
  "get_parameter m name =
     (case map_of (named_parameters m) name of None \<Rightarrow> Inl AttributeError | Some t \<Rightarrow> Inr t)"

definition flat_weights :: "classifier \<Rightarrow> tensor list" where
  "flat_weights m = map snd (filter (\<lambda>p. is_prefix ''lstm.'' (fst p)) (named_parameters m))"

text \<open>
  The classifier from the final hidden states on: the last entry of \<open>hidden\<close> (the last
  two, joined, when bidirectional) goes through the linear layer.
\<close>

definition select_hidden :: "bool \<Rightarrow> mat list \<Rightarrow> error + mat" where
  "select_hidden bi hidden =
     (if bi then
        (case py_index hidden (- 2) of
           Inl e \<Rightarrow> Inl e
         | Inr a \<Rightarrow> (case py_index hidden (- 1) of Inl e \<Rightarrow> Inl e | Inr b \<Rightarrow> cat_dim1 a b))
      else py_index hidden (- 1))"

text \<open>
  \<^verbatim>\<open>LSTMClassifier.forward\<close>, stage by stage: the embedding lookup with dropout, the
  encoder, the selection of the final hidden state, and the linear layer. The initial
  state of the encoder is a parameter of \<open>forward_from\<close>; the source passes none.
\<close>

definition embed :: "classifier \<Rightarrow> int list list \<Rightarrow> generator \<Rightarrow> error + (tensor3 \<times> generator)" where
  "embed m x g =
     (case get_parameter m ''embedding.weight'' of
        Inl e \<Rightarrow> Inl e
      | Inr emb_w \<Rightarrow>
          (case embedding_lookup emb_w x of
             Inl e \<Rightarrow> Inl e
           | Inr looked_up \<Rightarrow> Inr (dropout (dropout_p m) (training m) looked_up g)))"

definition fc_forward :: "classifier \<Rightarrow> mat \<Rightarrow> error + mat" where
  "fc_forward m hidden =
     (case get_parameter m ''fc.weight'' of
        Inl e \<Rightarrow> Inl e
      | Inr fc_w \<Rightarrow>
          (case get_parameter m ''fc.bias'' of
             Inl e \<Rightarrow> Inl e
           | Inr fc_b \<Rightarrow> Linear_forward fc_w fc_b hidden))"

definition forward_from ::
  "(mat list \<times> mat list) option \<Rightarrow> classifier \<Rightarrow> int list list \<Rightarrow> generator
     \<Rightarrow> error + (mat \<times> generator)" where
  "forward_from hx m x g =
     (case embed m x g of
        Inl e \<Rightarrow> Inl e
      | Inr (embedded, g1) \<Rightarrow>
     (case LSTM_forward (lstm m) (training m) (flat_weights m) embedded hx g1 of
        Inl e \<Rightarrow> Inl e
      | Inr (lstm_out, hidden, cell, g2) \<Rightarrow>
     (case select_hidden (lstm_bidirectional (lstm m)) hidden of
        Inl e \<Rightarrow> Inl e
      | Inr hidden' \<Rightarrow>
     (case fc_forward m hidden' of
        Inl e \<Rightarrow> Inl e
      | Inr logits \<Rightarrow> Inr (logits, g2)))))"

definition forward :: "classifier \<Rightarrow> int list list \<Rightarrow> generator \<Rightarrow> error + (mat \<times> generator)" where
  "forward m x g = forward_from None m x g"

text \<open>The generator after a series of forward calls; a call that raises draws nothing.\<close>

fun after_calls :: "classifier \<Rightarrow> int list list list \<Rightarrow> generator \<Rightarrow> generator" where
  "after_calls m [] g = g"
| "after_calls m (x # xs) g =
     after_calls m xs (case forward m x g of Inl e \<Rightarrow> g | Inr (logits, g') \<Rightarrow> g')"

section \<open>Notions used in the statements\<close>

text \<open>The configurations that the constructor accepts.\<close>

definition accepted :: "config \<Rightarrow> bool" where
  "accepted c \<longleftrightarrow>
     - vocab_size c \<le> padding_idx c \<and> padding_idx c < vocab_size c \<and> 0 \<le> embedding_dim c
     \<and> 1 \<le> hidden_dim c \<and> 1 \<le> num_layers c \<and> 0 \<le> output_dim c
     \<and> 0 \<le> dropout_rate c \<and> dropout_rate c \<le> 1"

text \<open>Names and shapes of a parameter list; a tensor that has as many entries as its
  shape says.\<close>

definition specs_of :: "(string \<times> tensor) list \<Rightarrow> (string \<times> nat list) list" where
  "specs_of ps = map (\<lambda>p. (fst p, shape (snd p))) ps"

definition filled :: "tensor \<Rightarrow> bool" where
  "filled t \<longleftrightarrow> length (data t) = numel (shape t)"

definition model_specs ::
  "nat \<Rightarrow> nat \<Rightarrow> nat \<Rightarrow> nat \<Rightarrow> bool \<Rightarrow> nat \<Rightarrow> (string \<times> nat list) list" where
  "model_specs V E H outd bi L =
     [(''embedding.weight'', [V, E])]
     @ map (\<lambda>p. (''lstm.'' @ fst p, snd p)) (lstm_specs E H bi L)
     @ [(''fc.weight'', [outd, H * num_directions bi]), (''fc.bias'', [outd])]"

text \<open>A name and shape on which the loop body of the initialisation pass cannot raise.\<close>

definition initialisable :: "string \<times> nat list \<Rightarrow> bool" where
  "initialisable p \<longleftrightarrow>
     (str_in ''weight'' (fst p) \<and> length (snd p) = 2 \<and> 0 < snd p ! 0 + snd p ! 1)
     \<or> (\<not> str_in ''weight'' (fst p) \<and> str_in ''bias'' (fst p))"

text \<open>
  The shape invariant of a constructed classifier: its parameters have the names and
  shapes that the constructor registered, and the attributes of the modules agree.
  A training step changes entries of the parameters and keeps this invariant.
\<close>

definition wf_model :: "classifier \<Rightarrow> bool" where
  "wf_model m \<longleftrightarrow>
     specs_of (named_parameters m) =
       model_specs (num_embeddings (embedding m)) (emb_dim (embedding m)) (hidden_size (lstm m))
         (out_features (fc m)) (lstm_bidirectional (lstm m)) (lstm_num_layers (lstm m))
     \<and> list_all (\<lambda>p. filled (snd p)) (named_parameters m)
     \<and> input_size (lstm m) = emb_dim (embedding m)
     \<and> in_features (fc m) = hidden_size (lstm m) * num_directions (lstm_bidirectional (lstm m))
     \<and> 0 < num_embeddings (embedding m)
     \<and> 0 < hidden_size (lstm m)
     \<and> 0 < lstm_num_layers (lstm m)"

text \<open>Shapes of nested lists: a matrix of \<open>B\<close> rows of length \<open>F\<close>, and a batch of \<open>B\<close>
  sequences of \<open>T\<close> vectors of length \<open>F\<close>.\<close>

definition has_shape2 :: "nat \<Rightarrow> nat \<Rightarrow> 'a list list \<Rightarrow> bool" where
  "has_shape2 B F a \<longleftrightarrow> length a = B \<and> list_all (\<lambda>r. length r = F) a"

definition has_shape3 :: "nat \<Rightarrow> nat \<Rightarrow> nat \<Rightarrow> 'a list list list \<Rightarrow> bool" where
  "has_shape3 B T F x \<longleftrightarrow> length x = B \<and> list_all (has_shape2 T F) x"

text \<open>A valid input: a batch of sequences of one length \<open>T \<ge> 1\<close> with every index in
  \<open>[0, V)\<close>.\<close>

definition valid_input :: "nat \<Rightarrow> nat \<Rightarrow> int list list \<Rightarrow> bool" where
  "valid_input V T x \<longleftrightarrow>
     1 \<le> T \<and> list_all (\<lambda>r. length r = T \<and> list_all (\<lambda>i. 0 \<le> i \<and> i < int V) r) x"

text \<open>The shapes of the flat weights of a stack of \<open>n\<close> layers whose first layer reads
  vectors of length \<open>In\<close>.\<close>

definition cell_shapes :: "nat \<Rightarrow> nat \<Rightarrow> nat list list" where
  "cell_shapes In H = [[4 * H, In], [4 * H, H], [4 * H], [4 * H]]"

definition layer_shapes :: "nat \<Rightarrow> nat \<Rightarrow> bool \<Rightarrow> nat list list" where
  "layer_shapes In H bi = (if bi then cell_shapes In H @ cell_shapes In H else cell_shapes In H)"

fun stack_shapes :: "nat \<Rightarrow> nat \<Rightarrow> bool \<Rightarrow> nat \<Rightarrow> nat list list" where
  "stack_shapes In H bi 0 = []"
| "stack_shapes In H bi (Suc n) = layer_shapes In H bi @ stack_shapes (H * num_directions bi) H bi n"

text \<open>The final hidden states, one for each direction, of the last layer of the stack.\<close>

fun last_layer_hidden ::
  "nat \<Rightarrow> lstm_mod \<Rightarrow> bool \<Rightarrow> tensor list \<Rightarrow> mat list \<Rightarrow> mat list \<Rightarrow> tensor3 \<Rightarrow> generator
     \<Rightarrow> mat list" where
  "last_layer_hidden 0 rnn train ws h0 c0 inp g = []"
| "last_layer_hidden (Suc n) rnn train ws h0 c0 inp g =
     (let D = num_directions (lstm_bidirectional rnn);
          (out, hn, cn) = lstm_layer (hidden_size rnn) (lstm_bidirectional rnn)
                            (take (4 * D) ws) (take D h0) (take D c0) inp;
          (out', g') = (if n > 0 then dropout (lstm_dropout rnn) train out g else (out, g))
      in if n = 0 then hn
         else last_layer_hidden n rnn train (drop (4 * D) ws) (drop D h0) (drop D c0) out' g')"

text \<open>The row of the embedding table at the padding index.\<close>

definition padding_row :: "classifier \<Rightarrow> error + real list" where
  "padding_row m =
     (case get_parameter m ''embedding.weight'' of
        Inl e \<Rightarrow> Inl e
      | Inr w \<Rightarrow> Inr (row w (emb_padding_idx (embedding m))))"

text \<open>Two generators whose coming uniform draws are the same, one by one.\<close>

definition same_draws :: "generator \<Rightarrow> generator \<Rightarrow> bool" where
  "same_draws g g2 \<longleftrightarrow> (\<forall>k. uniform01 g (offset g + k) = uniform01 g2 (offset g2 + k))"

section \<open>Concrete inputs\<close>

text \<open>
  The configuration of the end-to-end scenario (vocabulary 50, embedding dimension 8,
  hidden dimension 16, two classes, padding index 0, one layer), a generator whose
  uniform draws are all \<open>3/4\<close>, and a batch of four sequences of ten valid indices.
\<close>

definition scenario :: "bool \<Rightarrow> config" where
  "scenario bi =
     \<lparr>vocab_size = 50, embedding_dim = 8, hidden_dim = 16, output_dim = 2, padding_idx = 0,
      bidirectional = bi, num_layers = 1, dropout_rate = 1 / 2\<rparr>"

definition gen0 :: generator where
  "gen0 = \<lparr>uniform01 = (\<lambda>k. 3 / 4), stdnormal = (\<lambda>k. 0), offset = 0\<rparr>"

definition batch0 :: "int list list" where
  "batch0 = replicate 4 [0, 1, 2, 3, 4, 5, 6, 7, 8, 49]"

text \<open>
  A small classifier in training mode with the shapes of a constructed one (vocabulary 2,
  padding index 1, all dimensions 1, one layer, dropout probability \<open>1/2\<close>), and a
  generator whose first uniform draw keeps an entry under that dropout and whose later
  draws zero it.
\<close>

definition small_model :: classifier where
  "small_model =
     \<lparr>embedding = \<lparr>num_embeddings = 2, emb_dim = 1, emb_padding_idx = 1\<rparr>,
      lstm = \<lparr>input_size = 1, hidden_size = 1, lstm_num_layers = 1, lstm_dropout = 0,
              lstm_bidirectional = False\<rparr>,
      fc = \<lparr>in_features = 1, out_features = 1\<rparr>,
      dropout_p = 1 / 2,
      training = True,
      named_parameters =
        [(''embedding.weight'', \<lparr>shape = [2, 1], data = [1, 0]\<rparr>),
         (''lstm.weight_ih_l0'', \<lparr>shape = [4, 1], data = [0, 0, 1, 0]\<rparr>),
         (''lstm.weight_hh_l0'', \<lparr>shape = [4, 1], data = [0, 0, 0, 0]\<rparr>),
         (''lstm.bias_ih_l0'', \<lparr>shape = [4], data = [0, 0, 0, 0]\<rparr>),
         (''lstm.bias_hh_l0'', \<lparr>shape = [4], data = [0, 0, 0, 0]\<rparr>),
         (''fc.weight'', \<lparr>shape = [1, 1], data = [1]\<rparr>),
         (''fc.bias'', \<lparr>shape = [1], data = [0]\<rparr>)]\<rparr>"

definition gen1 :: generator where
  "gen1 = \<lparr>uniform01 = (\<lambda>k. if k = 0 then 1 / 4 else 3 / 4), stdnormal = (\<lambda>k. 0), offset = 0\<rparr>"

section \<open>Properties of the parameter names\<close>

lemma str_in_set: "str_in sub s \<Longrightarrow> set sub \<subseteq> set s"
proof (induction s)
  case Nil then show ?case by simp
next
  case (Cons c cs)
  have pre: "\<And>xs ys. is_prefix xs ys \<Longrightarrow> set xs \<subseteq> set ys"
  proof -
    fix xs ys show "is_prefix xs ys \<Longrightarrow> set xs \<subseteq> set ys"
      by (induction xs ys rule: is_prefix.induct) auto
  qed
  from Cons show ?case using pre[of sub "c # cs"] by auto
qed

lemma digit_char_set: "d < 10 \<Longrightarrow> digit_char d \<in> set ''0123456789''"
proof -
  assume "d < 10"
  then have "d \<in> {0,1,2,3,4,5,6,7,8,9}" by auto
  then show ?thesis unfolding digit_char_def by auto
qed

lemma str_of_nat_set: "set (str_of_nat n) \<subseteq> set ''0123456789''"
proof (induction n rule: str_of_nat.induct)
  case (1 n)
  show ?case
  proof (cases "n < 10")
    case True
    then show ?thesis using digit_char_set[of n] by (subst str_of_nat.simps) simp
  next
    case False
    have "n mod 10 < 10" by simp
    then have "digit_char (n mod 10) \<in> set ''0123456789''" by (rule digit_char_set)
    with False 1 show ?thesis by (subst str_of_nat.simps) simp
  qed
qed

lemma no_w_digits: "CHR ''w'' \<notin> set (str_of_nat n)" "CHR ''b'' \<notin> set (str_of_nat n)"
  using str_of_nat_set[of n] by auto

section \<open>Sampling primitives\<close>

lemma uniform_fill_shape [simp]: "shape (fst (uniform_fill a b t g)) = shape t"
  by (simp add: uniform_fill_def Let_def)

lemma uniform_fill_filled [simp]: "filled (fst (uniform_fill a b t g))"
  by (simp add: uniform_fill_def Let_def filled_def draws_def)

lemma uniform_fill_gen [simp]:
  "uniform01 (snd (uniform_fill a b t g)) = uniform01 g"
  "stdnormal (snd (uniform_fill a b t g)) = stdnormal g"
  by (simp_all add: uniform_fill_def Let_def advance_def)

lemma normal_fill_shape [simp]: "shape (fst (normal_fill a b t g)) = shape t"
  by (simp add: normal_fill_def Let_def)

lemma normal_fill_gen [simp]:
  "uniform01 (snd (normal_fill a b t g)) = uniform01 g"
  "stdnormal (snd (normal_fill a b t g)) = stdnormal g"
  by (simp_all add: normal_fill_def Let_def advance_def)

lemma zeros_fill_simps [simp]: "shape (zeros_fill t) = shape t" "filled (zeros_fill t)"
  by (simp_all add: zeros_fill_def filled_def)

lemma xavier_uniform_ok:
  assumes "length (shape t) = 2" "0 < shape t ! 0 + shape t ! 1"
  shows "xavier_uniform t g =
           Inr (uniform_fill (- xavier_bound (shape t ! 1) (shape t ! 0))
                             (xavier_bound (shape t ! 1) (shape t ! 0)) t g)"
  using assms by (auto simp: xavier_uniform_def calculate_fan_in_and_fan_out_def Let_def)

section \<open>The initialisation loop\<close>

lemma init_param_ok:
  assumes "initialisable (name, shape t)"
  shows "\<exists>t' g'. init_param name t g = Inr (t', g') \<and> shape t' = shape t \<and> filled t'
           \<and> uniform01 g' = uniform01 g \<and> stdnormal g' = stdnormal g"
proof (cases "str_in ''weight'' name")
  case True
  with assms have s: "length (shape t) = 2" "0 < shape t ! 0 + shape t ! 1"
    by (auto simp: initialisable_def)
  show ?thesis
    using True xavier_uniform_ok[OF s, of g]
    by (cases "uniform_fill (- xavier_bound (shape t ! 1) (shape t ! 0))
                             (xavier_bound (shape t ! 1) (shape t ! 0)) t g")
       (metis init_param_def uniform_fill_shape uniform_fill_filled uniform_fill_gen fst_conv snd_conv)
next
  case False
  with assms show ?thesis by (auto simp: initialisable_def init_param_def)
qed

lemma init_params_ok:
  assumes "list_all initialisable (specs_of ps)"
  shows "\<exists>ps' g'. init_params ps g = Inr (ps', g') \<and> specs_of ps' = specs_of ps
           \<and> list_all (\<lambda>p. filled (snd p)) ps'"
  using assms
proof (induction ps arbitrary: g)
  case Nil
  then show ?case by (simp add: specs_of_def)
next
  case (Cons p ps)
  obtain name t where p: "p = (name, t)" by (cases p)
  from Cons.prems p have i: "initialisable (name, shape t)" and r: "list_all initialisable (specs_of ps)"
    by (simp_all add: specs_of_def)
  from init_param_ok[OF i, of g] obtain t' g1 where
    a: "init_param name t g = Inr (t', g1)" "shape t' = shape t" "filled t'" by blast
  from Cons.IH[OF r, of g1] obtain ps' g2 where
    b: "init_params ps g1 = Inr (ps', g2)" "specs_of ps' = specs_of ps" "list_all (\<lambda>p. filled (snd p)) ps'"
    by blast
  show ?case using a b p by (simp add: specs_of_def)
qed

section \<open>Properties of the constructors\<close>

lemma uniform_fill_elim:
  assumes "uniform_fill a b t g = (t', g')"
  shows "shape t' = shape t" "filled t'" "uniform01 g' = uniform01 g" "stdnormal g' = stdnormal g"
  using assms by (auto simp: uniform_fill_def Let_def advance_def filled_def draws_def)

lemma normal_fill_elim:
  assumes "normal_fill a b t g = (t', g')"
  shows "shape t' = shape t" "filled t'" "uniform01 g' = uniform01 g" "stdnormal g' = stdnormal g"
  using assms by (auto simp: normal_fill_def Let_def advance_def filled_def draws_def)

lemma empty_tensor_Inr:
  "empty_tensor dims = Inr t \<Longrightarrow> (\<forall>d\<in>set dims. 0 \<le> d) \<and> shape t = map nat dims \<and> filled t"
  by (auto simp: empty_tensor_def list_ex_iff filled_def split: if_splits)

lemma empty_tensor_succeeds: "\<forall>d\<in>set dims. 0 \<le> d \<Longrightarrow> \<exists>t. empty_tensor dims = Inr t"
  by (auto simp: empty_tensor_def list_ex_iff)

lemma fill_row_shape [simp]: "shape (fill_row t i v) = shape t"
  by (simp add: fill_row_def Let_def)

lemma Embedding_Inr:
  assumes "Embedding n d pad g = Inr (emb, w, g1)"
  shows "- n \<le> pad \<and> pad < n \<and> 0 \<le> d
         \<and> emb = \<lparr>num_embeddings = nat n, emb_dim = nat d,
                  emb_padding_idx = nat (if pad < 0 then n + pad else pad)\<rparr>
         \<and> shape w = [nat n, nat d]
         \<and> uniform01 g1 = uniform01 g \<and> stdnormal g1 = stdnormal g"
  using assms
  by (auto simp: Embedding_def Let_def split: if_splits sum.splits prod.splits
           dest!: empty_tensor_Inr dest: normal_fill_elim)

lemma Embedding_succeeds:
  assumes "- n \<le> pad" "pad < n" "0 \<le> d"
  shows "\<exists>r. Embedding n d pad g = Inr r"
proof -
  have "\<exists>t. empty_tensor [n, d] = Inr t" using assms by (intro empty_tensor_succeeds) auto
  then show ?thesis using assms
    by (auto simp: Embedding_def Let_def split: prod.splits)
qed

lemma uniform_all_elim:
  "uniform_all a b ps g = (ps', g') \<Longrightarrow>
     specs_of ps' = specs_of ps \<and> uniform01 g' = uniform01 g \<and> stdnormal g' = stdnormal g"
proof (induction ps arbitrary: g ps' g')
  case Nil
  then show ?case by simp
next
  case (Cons p ps)
  obtain name t where p: "p = (name, t)" by (cases p)
  obtain t1 g1 where u: "uniform_fill a b t g = (t1, g1)" by (cases "uniform_fill a b t g")
  obtain ps2 g2 where r: "uniform_all a b ps g1 = (ps2, g2)" by (cases "uniform_all a b ps g1")
  have "g' = g2" "ps' = (name, t1) # ps2" using Cons.prems by (simp_all add: p u r)
  then show ?case using Cons.IH[OF r] uniform_fill_elim(1,3,4)[OF u] p by (simp add: specs_of_def)
qed

lemma specs_of_fresh [simp]:
  "specs_of (map (\<lambda>(name, s). (name, \<lparr>shape = s, data = replicate (numel s) 0\<rparr>)) sp) = sp"
  by (induction sp) (auto simp: specs_of_def)

lemma LSTM_Inr:
  assumes "LSTM inp hid nl dr bi g = Inr (rnn, ps, g1)"
  shows "0 \<le> dr \<and> dr \<le> 1 \<and> 1 \<le> hid \<and> 1 \<le> nl \<and> 0 \<le> inp
         \<and> rnn = \<lparr>input_size = nat inp, hidden_size = nat hid, lstm_num_layers = nat nl,
                  lstm_dropout = dr, lstm_bidirectional = bi\<rparr>
         \<and> specs_of ps = lstm_specs (nat inp) (nat hid) bi (nat nl)
         \<and> uniform01 g1 = uniform01 g \<and> stdnormal g1 = stdnormal g"
  using assms
  by (auto simp: LSTM_def Let_def split: if_splits prod.splits dest!: uniform_all_elim)

lemma LSTM_succeeds:
  assumes "0 \<le> dr" "dr \<le> 1" "1 \<le> hid" "1 \<le> nl" "0 \<le> inp"
  shows "\<exists>r. LSTM inp hid nl dr bi g = Inr r"
  using assms by (auto simp: LSTM_def Let_def split: prod.splits)

lemma kaiming_uniform_Inr:
  "kaiming_uniform t g = Inr (t', g') \<Longrightarrow>
     shape t' = shape t \<and> uniform01 g' = uniform01 g \<and> stdnormal g' = stdnormal g"
  by (auto simp: kaiming_uniform_def Let_def split: if_splits sum.splits prod.splits
           dest: uniform_fill_elim)

lemma kaiming_uniform_succeeds: "2 \<le> length (shape t) \<Longrightarrow> \<exists>r. kaiming_uniform t g = Inr r"
  by (auto simp: kaiming_uniform_def calculate_fan_in_and_fan_out_def Let_def)

lemma Linear_Inr:
  assumes "Linear n_in n_out g = Inr (lin, w, b, g1)"
  shows "0 \<le> n_in \<and> 0 \<le> n_out
         \<and> lin = \<lparr>in_features = nat n_in, out_features = nat n_out\<rparr>
         \<and> shape w = [nat n_out, nat n_in] \<and> shape b = [nat n_out]
         \<and> uniform01 g1 = uniform01 g \<and> stdnormal g1 = stdnormal g"
  using assms
  by (auto simp: Linear_def Let_def split: if_splits sum.splits prod.splits
           dest!: empty_tensor_Inr kaiming_uniform_Inr dest: uniform_fill_elim)

lemma Linear_succeeds:
  assumes "0 \<le> n_in" "0 \<le> n_out"
  shows "\<exists>r. Linear n_in n_out g = Inr r"
proof -
  obtain w where w: "empty_tensor [n_out, n_in] = Inr w"
    using empty_tensor_succeeds[of "[n_out, n_in]"] assms by auto
  obtain b where b: "empty_tensor [n_out] = Inr b"
    using empty_tensor_succeeds[of "[n_out]"] assms by auto
  have sw: "shape w = [nat n_out, nat n_in]" using empty_tensor_Inr[OF w] by simp
  then obtain w' g1 where k: "kaiming_uniform w g = Inr (w', g1)"
    using kaiming_uniform_succeeds[of w g] by auto
  have "shape w' = [nat n_out, nat n_in]" using kaiming_uniform_Inr[OF k] sw by simp
  then have "calculate_fan_in_and_fan_out w' = Inr (nat n_in, nat n_out)"
    by (simp add: calculate_fan_in_and_fan_out_def)
  then show ?thesis
    by (simp add: Linear_def w b k Let_def split: prod.splits)
qed

section \<open>Names and the initialisation pass\<close>

lemma lstm_specs_initialisable:
  assumes "p \<in> set (lstm_specs E H bi L)" "0 < H"
  shows "initialisable (''lstm.'' @ fst p, snd p)"
proof -
  from assms(1) obtain l d where "p \<in> set (cell_specs E H bi l d)"
    by (auto simp: lstm_specs_def layer_specs_def)
  then show ?thesis
    using assms(2) no_w_digits[of l]
    by (auto simp: cell_specs_def Let_def initialisable_def dest!: str_in_set)
qed

lemma model_specs_initialisable:
  assumes "0 < V" "0 < H"
  shows "list_all initialisable (model_specs V E H outd bi L)"
  using assms lstm_specs_initialisable[of _ E H bi L]
  by (auto simp: model_specs_def list_all_iff initialisable_def num_directions_def dest!: str_in_set)

lemma xavier_uniform_Inr:
  "xavier_uniform t g = Inr (t', g') \<Longrightarrow>
     shape t' = shape t \<and> filled t' \<and> uniform01 g' = uniform01 g \<and> stdnormal g' = stdnormal g"
  by (auto simp: xavier_uniform_def Let_def split: if_splits sum.splits prod.splits
           dest: uniform_fill_elim)

lemma init_param_Inr:
  "init_param name t g = Inr (t', g') \<Longrightarrow>
     shape t' = shape t \<and> uniform01 g' = uniform01 g \<and> stdnormal g' = stdnormal g"
  by (auto simp: init_param_def split: if_splits dest!: xavier_uniform_Inr)

lemma init_params_Inr:
  "init_params ps g = Inr (ps', g') \<Longrightarrow>
     specs_of ps' = specs_of ps \<and> uniform01 g' = uniform01 g \<and> stdnormal g' = stdnormal g"
proof (induction ps arbitrary: g ps' g')
  case Nil
  then show ?case by simp
next
  case (Cons p ps)
  obtain name t where p: "p = (name, t)" by (cases p)
  from Cons.prems p obtain t1 g1 ps2 where
    a: "init_param name t g = Inr (t1, g1)" and b: "init_params ps g1 = Inr (ps2, g')"
    and c: "ps' = (name, t1) # ps2"
    by (auto split: sum.splits)
  show ?case using init_param_Inr[OF a] Cons.IH[OF b] p c by (simp add: specs_of_def)
qed

lemma specs_of_prefixed:
  "specs_of (map (\<lambda>(name, t). (pre @ name, t)) ps) = map (\<lambda>p. (pre @ fst p, snd p)) (specs_of ps)"
  by (induction ps) (auto simp: specs_of_def)

lemma LSTMClassifier_Inr:
  assumes "LSTMClassifier c g = Inr (m, g')"
  shows "accepted c"
    and "embedding m = \<lparr>num_embeddings = nat (vocab_size c), emb_dim = nat (embedding_dim c),
            emb_padding_idx = nat (if padding_idx c < 0 then vocab_size c + padding_idx c
                                   else padding_idx c)\<rparr>"
    and "lstm m = \<lparr>input_size = nat (embedding_dim c), hidden_size = nat (hidden_dim c),
            lstm_num_layers = nat (num_layers c),
            lstm_dropout = (if num_layers c > 1 then dropout_rate c else 0),
            lstm_bidirectional = bidirectional c\<rparr>"
    and "fc m = \<lparr>in_features = nat (if bidirectional c then hidden_dim c * 2 else hidden_dim c),
            out_features = nat (output_dim c)\<rparr>"
    and "dropout_p m = dropout_rate c"
    and "training m"
    and "specs_of (named_parameters m) =
           model_specs (nat (vocab_size c)) (nat (embedding_dim c)) (nat (hidden_dim c))
             (nat (output_dim c)) (bidirectional c) (nat (num_layers c))"
    and "uniform01 g' = uniform01 g" and "stdnormal g' = stdnormal g"
proof -
  let ?dr = "if num_layers c > 1 then dropout_rate c else 0"
  let ?od = "if bidirectional c then hidden_dim c * 2 else hidden_dim c"
  from assms obtain emb emb_w g1 where
    E: "Embedding (vocab_size c) (embedding_dim c) (padding_idx c) g = Inr (emb, emb_w, g1)"
    by (auto simp: LSTMClassifier_def split: sum.splits)
  from assms E obtain rnn rnn_ps g2 where
    L: "LSTM (embedding_dim c) (hidden_dim c) (num_layers c) ?dr (bidirectional c) g1 = Inr (rnn, rnn_ps, g2)"
    by (auto simp: LSTMClassifier_def split: sum.splits)
  from assms E L obtain lin fc_w fc_b g3 where
    F: "Linear ?od (output_dim c) g2 = Inr (lin, fc_w, fc_b, g3)"
    by (auto simp: LSTMClassifier_def Let_def split: sum.splits)
  from assms E L F obtain p where D: "Dropout (dropout_rate c) = Inr p"
    by (auto simp: LSTMClassifier_def Let_def split: sum.splits)
  let ?ps0 = "[(''embedding.weight'', emb_w)] @ map (\<lambda>(name, t). (''lstm.'' @ name, t)) rnn_ps
               @ [(''fc.weight'', fc_w), (''fc.bias'', fc_b)]"
  let ?m0 = "\<lparr>embedding = emb, lstm = rnn, fc = lin, dropout_p = p, training = True,
              named_parameters = ?ps0\<rparr>"
  from assms E L F D have I: "init_weights ?m0 g3 = Inr (m, g')"
    by (simp add: LSTMClassifier_def Let_def)
  then obtain ps where P: "init_params ?ps0 g3 = Inr (ps, g')" and m: "m = ?m0\<lparr>named_parameters := ps\<rparr>"
    by (auto simp: init_weights_def split: sum.splits)
  note e = Embedding_Inr[OF E] and l = LSTM_Inr[OF L] and f = Linear_Inr[OF F]
    and i = init_params_Inr[OF P]
  from D have d: "0 \<le> dropout_rate c" "dropout_rate c \<le> 1" "p = dropout_rate c"
    by (auto simp: Dropout_def split: if_splits)
  show "accepted c" using e l f d by (simp add: accepted_def)
  show "embedding m = \<lparr>num_embeddings = nat (vocab_size c), emb_dim = nat (embedding_dim c),
            emb_padding_idx = nat (if padding_idx c < 0 then vocab_size c + padding_idx c
                                   else padding_idx c)\<rparr>"
    using e m by simp
  show "lstm m = \<lparr>input_size = nat (embedding_dim c), hidden_size = nat (hidden_dim c),
            lstm_num_layers = nat (num_layers c),
            lstm_dropout = (if num_layers c > 1 then dropout_rate c else 0),
            lstm_bidirectional = bidirectional c\<rparr>"
    using l m by simp
  show "fc m = \<lparr>in_features = nat (if bidirectional c then hidden_dim c * 2 else hidden_dim c),
            out_features = nat (output_dim c)\<rparr>"
    using f m by simp
  show "dropout_p m = dropout_rate c" using d m by simp
  show "training m" using m by simp
  have "specs_of ?ps0 = model_specs (nat (vocab_size c)) (nat (embedding_dim c)) (nat (hidden_dim c))
             (nat (output_dim c)) (bidirectional c) (nat (num_layers c))"
    using e l f specs_of_prefixed[of "''lstm.''" rnn_ps]
    by (auto simp: model_specs_def num_directions_def specs_of_def nat_mult_distrib)
  then show "specs_of (named_parameters m) =
           model_specs (nat (vocab_size c)) (nat (embedding_dim c)) (nat (hidden_dim c))
             (nat (output_dim c)) (bidirectional c) (nat (num_layers c))"
    using i m by simp
  show "uniform01 g' = uniform01 g" "stdnormal g' = stdnormal g" using e l f i by simp_all
qed

lemma LSTMClassifier_succeeds:
  assumes "accepted c"
  shows "\<exists>m g'. LSTMClassifier c g = Inr (m, g')"
proof -
  let ?dr = "if num_layers c > 1 then dropout_rate c else 0"
  let ?od = "if bidirectional c then hidden_dim c * 2 else hidden_dim c"
  from assms have a: "- vocab_size c \<le> padding_idx c" "padding_idx c < vocab_size c"
    "0 \<le> embedding_dim c" "1 \<le> hidden_dim c" "1 \<le> num_layers c" "0 \<le> output_dim c"
    "0 \<le> dropout_rate c" "dropout_rate c \<le> 1"
    by (simp_all add: accepted_def)
  obtain emb emb_w g1 where
    E: "Embedding (vocab_size c) (embedding_dim c) (padding_idx c) g = Inr (emb, emb_w, g1)"
    using Embedding_succeeds[OF a(1-3), of g] by auto
  have "0 \<le> ?dr" "?dr \<le> 1" using a by auto
  then obtain rnn rnn_ps g2 where
    L: "LSTM (embedding_dim c) (hidden_dim c) (num_layers c) ?dr (bidirectional c) g1 = Inr (rnn, rnn_ps, g2)"
    using LSTM_succeeds[OF _ _ a(4) a(5) a(3), of ?dr "bidirectional c" g1] by auto
  have "0 \<le> ?od" using a by auto
  then obtain lin fc_w fc_b g3 where
    F: "Linear ?od (output_dim c) g2 = Inr (lin, fc_w, fc_b, g3)"
    using Linear_succeeds[OF _ a(6), of ?od g2] by auto
  have D: "Dropout (dropout_rate c) = Inr (dropout_rate c)" using a by (simp add: Dropout_def)
  let ?ps0 = "[(''embedding.weight'', emb_w)] @ map (\<lambda>(name, t). (''lstm.'' @ name, t)) rnn_ps
               @ [(''fc.weight'', fc_w), (''fc.bias'', fc_b)]"
  note e = Embedding_Inr[OF E] and l = LSTM_Inr[OF L] and f = Linear_Inr[OF F]
  have "specs_of ?ps0 = model_specs (nat (vocab_size c)) (nat (embedding_dim c)) (nat (hidden_dim c))
             (nat (output_dim c)) (bidirectional c) (nat (num_layers c))"
    using e l f specs_of_prefixed[of "''lstm.''" rnn_ps]
    by (auto simp: model_specs_def num_directions_def specs_of_def nat_mult_distrib)
  moreover have "0 < nat (vocab_size c)" "0 < nat (hidden_dim c)" using a by auto
  ultimately have "list_all initialisable (specs_of ?ps0)"
    using model_specs_initialisable by simp
  from init_params_ok[OF this, of g3] obtain ps g' where "init_params ?ps0 g3 = Inr (ps, g')"
    by blast
  then show ?thesis
    by (simp add: LSTMClassifier_def E L F D Let_def init_weights_def)
qed

lemma LSTMClassifier_fails:
  assumes "\<not> accepted c"
  shows "\<exists>e. LSTMClassifier c g = Inl e"
proof (cases "LSTMClassifier c g")
  case (Inl e)
  then show ?thesis by blast
next
  case (Inr r)
  obtain m g' where "r = (m, g')" by (cases r)
  with Inr LSTMClassifier_Inr(1)[of c g m g'] assms show ?thesis by simp
qed

lemma accepted_scenario: "accepted (scenario bi)"
  by (simp add: accepted_def scenario_def)

section \<open>Construction\<close>

text \<open>
  Claim C2, as amended. Construction raises whenever the vocabulary size is at most 0, the
  padding index is at least the vocabulary size or below its negation, the output
  dimension is negative, or the dropout probability is below 0 or above 1.
\<close>

theorem construction_rejects_invalid_config:
  assumes "vocab_size c \<le> 0 \<or> padding_idx c < - vocab_size c \<or> vocab_size c \<le> padding_idx c
           \<or> output_dim c < 0 \<or> dropout_rate c < 0 \<or> 1 < dropout_rate c"
  shows "isl (LSTMClassifier c g)"
proof -
  from assms have "\<not> accepted c" by (auto simp: accepted_def)
  from LSTMClassifier_fails[OF this, of g] show ?thesis by auto
qed

theorem construction_rejects_invalid_config_witness:
  "1 < dropout_rate ((scenario False)\<lparr>dropout_rate := 2\<rparr>)
   \<and> isl (LSTMClassifier ((scenario False)\<lparr>dropout_rate := 2\<rparr>) gen0)"
  using construction_rejects_invalid_config [of "(scenario False)\<lparr>dropout_rate := 2\<rparr>" gen0]
  by simp

text \<open>
  Claim C2 as stated fails: a dropout probability of exactly 1, a padding index of
  \<open>-1\<close> (it counts from the end of the table) and an output dimension of 0 are
  outside the ranges of the claim, and the constructor accepts each of them.
\<close>

theorem construction_accepts_boundary_values:
  "\<not> dropout_rate ((scenario False)\<lparr>dropout_rate := 1\<rparr>) < 1
   \<and> \<not> isl (LSTMClassifier ((scenario False)\<lparr>dropout_rate := 1\<rparr>) gen0)
   \<and> padding_idx ((scenario False)\<lparr>padding_idx := - 1\<rparr>) < 0
   \<and> \<not> isl (LSTMClassifier ((scenario False)\<lparr>padding_idx := - 1\<rparr>) gen0)
   \<and> output_dim ((scenario False)\<lparr>output_dim := 0\<rparr>) < 1
   \<and> \<not> isl (LSTMClassifier ((scenario False)\<lparr>output_dim := 0\<rparr>) gen0)"
proof -
  have "accepted ((scenario False)\<lparr>dropout_rate := 1\<rparr>)"
       "accepted ((scenario False)\<lparr>padding_idx := - 1\<rparr>)"
       "accepted ((scenario False)\<lparr>output_dim := 0\<rparr>)"
    by (simp_all add: accepted_def scenario_def)
  from this[THEN LSTMClassifier_succeeds, of gen0] show ?thesis by auto
qed

lemma map_of_specs:
  "map_of (specs_of ps) name = Some s \<Longrightarrow> \<exists>t. map_of ps name = Some t \<and> shape t = s"
  by (induction ps) (auto simp: specs_of_def split: if_splits)

lemma map_of_other_initial:
  "c \<noteq> d \<Longrightarrow> map_of (map (\<lambda>p. (c # f p, h p)) l) (d # rest) = None"
  by (induction l) auto

lemma model_specs_lookup:
  "map_of (model_specs V E H outd bi L) ''embedding.weight'' = Some [V, E]"
  "map_of (model_specs V E H outd bi L) ''fc.weight'' = Some [outd, H * num_directions bi]"
  "map_of (model_specs V E H outd bi L) ''fc.bias'' = Some [outd]"
  by (simp_all add: model_specs_def map_add_def map_of_other_initial)

lemma get_parameter_specs:
  assumes "specs_of (named_parameters m) = model_specs V E H outd bi L"
  shows "\<exists>t. get_parameter m ''embedding.weight'' = Inr t \<and> shape t = [V, E]
              \<and> (''embedding.weight'', t) \<in> set (named_parameters m)"
    and "\<exists>t. get_parameter m ''fc.weight'' = Inr t \<and> shape t = [outd, H * num_directions bi]
              \<and> (''fc.weight'', t) \<in> set (named_parameters m)"
    and "\<exists>t. get_parameter m ''fc.bias'' = Inr t \<and> shape t = [outd]
              \<and> (''fc.bias'', t) \<in> set (named_parameters m)"
  using map_of_specs[of "named_parameters m" "''embedding.weight''" "[V, E]"]
        map_of_specs[of "named_parameters m" "''fc.weight''" "[outd, H * num_directions bi]"]
        map_of_specs[of "named_parameters m" "''fc.bias''" "[outd]"]
        model_specs_lookup[of V E H outd bi L] assms
  by (auto simp: get_parameter_def dest: map_of_SomeD)

text \<open>
  Claim C4. A constructed classifier has a linear layer whose input dimension is
  \<open>hidden_dim\<close> when unidirectional and \<open>2 * hidden_dim\<close> when bidirectional, and the
  registered weight of that layer has this number of columns.
\<close>

theorem projection_head_input_dim:
  assumes "LSTMClassifier c g = Inr (m, g')"
  shows "int (in_features (fc m)) = (if bidirectional c then 2 * hidden_dim c else hidden_dim c)
         \<and> (\<exists>w. get_parameter m ''fc.weight'' = Inr w
                \<and> shape w = [nat (output_dim c), in_features (fc m)])"
proof -
  note r = LSTMClassifier_Inr[OF assms]
  from r(1) have h: "1 \<le> hidden_dim c" by (simp add: accepted_def)
  have a: "int (in_features (fc m)) = (if bidirectional c then 2 * hidden_dim c else hidden_dim c)"
    using r(4) h by auto
  from get_parameter_specs(2)[OF r(7)] obtain w where
    w: "get_parameter m ''fc.weight'' = Inr w"
       "shape w = [nat (output_dim c), nat (hidden_dim c) * num_directions (bidirectional c)]"
    by blast
  have "nat (hidden_dim c) * num_directions (bidirectional c) = in_features (fc m)"
    using r(4) h by (auto simp: num_directions_def nat_mult_distrib)
  with a w show ?thesis by auto
qed

theorem projection_head_input_dim_witness:
  "\<exists>m g'. LSTMClassifier (scenario True) gen0 = Inr (m, g') \<and> in_features (fc m) = 32"
proof -
  from LSTMClassifier_succeeds[OF accepted_scenario, of True gen0]
  obtain m g' where c: "LSTMClassifier (scenario True) gen0 = Inr (m, g')" by blast
  from projection_head_input_dim[OF c] have "in_features (fc m) = 32"
    by (simp add: scenario_def)
  with c show ?thesis by blast
qed

section \<open>The initialisation pass\<close>

lemma LSTMClassifier_init:
  assumes "LSTMClassifier c g = Inr (m, g')"
  shows "\<exists>ps0 g3. specs_of ps0 = specs_of (named_parameters m)
           \<and> uniform01 g3 = uniform01 g \<and> stdnormal g3 = stdnormal g
           \<and> init_params ps0 g3 = Inr (named_parameters m, g')"
proof -
  let ?dr = "if num_layers c > 1 then dropout_rate c else 0"
  let ?od = "if bidirectional c then hidden_dim c * 2 else hidden_dim c"
  from assms obtain emb emb_w g1 where
    E: "Embedding (vocab_size c) (embedding_dim c) (padding_idx c) g = Inr (emb, emb_w, g1)"
    by (auto simp: LSTMClassifier_def split: sum.splits)
  from assms E obtain rnn rnn_ps g2 where
    L: "LSTM (embedding_dim c) (hidden_dim c) (num_layers c) ?dr (bidirectional c) g1 = Inr (rnn, rnn_ps, g2)"
    by (auto simp: LSTMClassifier_def split: sum.splits)
  from assms E L obtain lin fc_w fc_b g3 where
    F: "Linear ?od (output_dim c) g2 = Inr (lin, fc_w, fc_b, g3)"
    by (auto simp: LSTMClassifier_def Let_def split: sum.splits)
  from assms E L F obtain p where D: "Dropout (dropout_rate c) = Inr p"
    by (auto simp: LSTMClassifier_def Let_def split: sum.splits)
  let ?ps0 = "[(''embedding.weight'', emb_w)] @ map (\<lambda>(name, t). (''lstm.'' @ name, t)) rnn_ps
               @ [(''fc.weight'', fc_w), (''fc.bias'', fc_b)]"
  let ?m0 = "\<lparr>embedding = emb, lstm = rnn, fc = lin, dropout_p = p, training = True,
              named_parameters = ?ps0\<rparr>"
  from assms E L F D have I: "init_weights ?m0 g3 = Inr (m, g')"
    by (simp add: LSTMClassifier_def Let_def)
  then obtain ps where P: "init_params ?ps0 g3 = Inr (ps, g')" and m: "m = ?m0\<lparr>named_parameters := ps\<rparr>"
    by (auto simp: init_weights_def split: sum.splits)
  note e = Embedding_Inr[OF E] and l = LSTM_Inr[OF L] and f = Linear_Inr[OF F]
    and i = init_params_Inr[OF P]
  have "specs_of ?ps0 = specs_of (named_parameters m)" using i m by simp
  moreover have "uniform01 g3 = uniform01 g" "stdnormal g3 = stdnormal g" using e l f by simp_all
  moreover have "init_params ?ps0 g3 = Inr (named_parameters m, g')" using P m by simp
  ultimately show ?thesis by blast
qed

lemma init_params_rel:
  "init_params ps g = Inr (ps', g') \<Longrightarrow>
     list_all2 (\<lambda>p p'. fst p' = fst p
                 \<and> (\<exists>g0 g1. uniform01 g0 = uniform01 g \<and> stdnormal g0 = stdnormal g
                       \<and> init_param (fst p) (snd p) g0 = Inr (snd p', g1))) ps ps'"
proof (induction ps arbitrary: g ps' g')
  case Nil
  then show ?case by simp
next
  case (Cons p ps)
  obtain name t where p: "p = (name, t)" by (cases p)
  from Cons.prems p obtain t1 g1 ps2 where
    a: "init_param name t g = Inr (t1, g1)" and b: "init_params ps g1 = Inr (ps2, g')"
    and c: "ps' = (name, t1) # ps2"
    by (auto split: sum.splits)
  note s = init_param_Inr[OF a]
  have "list_all2 (\<lambda>p p'. fst p' = fst p
                 \<and> (\<exists>g0 g1. uniform01 g0 = uniform01 g \<and> stdnormal g0 = stdnormal g
                       \<and> init_param (fst p) (snd p) g0 = Inr (snd p', g1))) ps ps2"
    using Cons.IH[OF b] s by simp
  moreover have "\<exists>g0 g1. uniform01 g0 = uniform01 g \<and> stdnormal g0 = stdnormal g
                       \<and> init_param name t g0 = Inr (t1, g1)"
    using a by blast
  ultimately show ?case using p c by simp
qed

lemma xavier_bound_eq: "xavier_bound fan_in fan_out = sqrt (6 / real (fan_in + fan_out))"
  by (simp add: xavier_bound_def real_sqrt_mult[symmetric])

lemma xavier_uniform_data:
  assumes "xavier_uniform t0 g0 = Inr (t, g1)" "length (shape t0) = 2"
  shows "0 < shape t ! 0 + shape t ! 1"
    and "data t = map (\<lambda>k. sqrt (6 / real (shape t ! 1 + shape t ! 0))
                             * (2 * uniform01 g0 (offset g0 + k) - 1)) [0..<numel (shape t)]"
    and "shape t = shape t0"
proof -
  from assms have pos: "0 < shape t0 ! 0 + shape t0 ! 1"
    by (auto simp: xavier_uniform_def calculate_fan_in_and_fan_out_def Let_def split: if_splits)
  from xavier_uniform_ok[OF assms(2) pos, of g0] assms(1)
  have u: "(t, g1) = uniform_fill (- xavier_bound (shape t0 ! 1) (shape t0 ! 0))
                             (xavier_bound (shape t0 ! 1) (shape t0 ! 0)) t0 g0" by simp
  then show s: "shape t = shape t0" by (simp add: uniform_fill_def Let_def)
  from pos s show "0 < shape t ! 0 + shape t ! 1" by simp
  from u s show "data t = map (\<lambda>k. sqrt (6 / real (shape t ! 1 + shape t ! 0))
                             * (2 * uniform01 g0 (offset g0 + k) - 1)) [0..<numel (shape t)]"
    by (simp add: uniform_fill_def Let_def draws_def xavier_bound_eq algebra_simps)
qed

lemma model_specs_names:
  assumes "p \<in> set (model_specs V E H outd bi L)" "0 < V" "0 < H"
  shows "initialisable p"
  using model_specs_initialisable[OF assms(2,3), of E outd bi L] assms(1)
  by (simp add: list_all_iff)

lemma lstm_specs_exclusive:
  assumes "p \<in> set (lstm_specs E H bi L)"
  shows "\<not> (CHR ''w'' \<in> set (fst p) \<and> CHR ''b'' \<in> set (fst p))"
proof -
  from assms(1) obtain l d where "p \<in> set (cell_specs E H bi l d)"
    by (auto simp: lstm_specs_def layer_specs_def)
  then show ?thesis
    using no_w_digits[of l]
    by (auto simp: cell_specs_def Let_def split: if_splits)
qed

lemma model_specs_exclusive:
  assumes "p \<in> set (model_specs V E H outd bi L)"
  shows "\<not> (str_in ''weight'' (fst p) \<and> str_in ''bias'' (fst p))"
  using assms lstm_specs_exclusive[of _ E H bi L]
  by (auto simp: model_specs_def dest!: str_in_set)

lemma parameter_after_construction:
  assumes "LSTMClassifier c g = Inr (m, g')" and "(name, t) \<in> set (named_parameters m)"
  shows "(str_in ''bias'' name \<longrightarrow> (\<forall>v\<in>set (data t). v = 0) \<and> length (data t) = numel (shape t))
       \<and> (str_in ''weight'' name \<longrightarrow>
            (\<exists>t0 g0 g1. shape t0 = shape t \<and> uniform01 g0 = uniform01 g
                \<and> xavier_uniform t0 g0 = Inr (t, g1)
                \<and> length (shape t) = 2 \<and> 0 < shape t ! 0 + shape t ! 1
                \<and> data t = map (\<lambda>k. sqrt (6 / real (shape t ! 1 + shape t ! 0))
                                      * (2 * uniform01 g (offset g0 + k) - 1))
                               [0..<numel (shape t)]))
       \<and> (str_in ''weight'' name \<or> str_in ''bias'' name)"
proof -
  note r = LSTMClassifier_Inr[OF assms(1)]
  from LSTMClassifier_init[OF assms(1)] obtain ps0 g3 where
    s: "specs_of ps0 = specs_of (named_parameters m)" and u: "uniform01 g3 = uniform01 g"
    and n: "stdnormal g3 = stdnormal g" and i: "init_params ps0 g3 = Inr (named_parameters m, g')"
    by blast
  from assms(2) obtain k where k: "k < length (named_parameters m)" "named_parameters m ! k = (name, t)"
    by (auto simp: in_set_conv_nth)
  from init_params_rel[OF i] have len: "length ps0 = length (named_parameters m)"
    and rel: "fst (named_parameters m ! k) = fst (ps0 ! k)"
       "\<exists>g0 g1. uniform01 g0 = uniform01 g3 \<and> stdnormal g0 = stdnormal g3
            \<and> init_param (fst (ps0 ! k)) (snd (ps0 ! k)) g0 = Inr (snd (named_parameters m ! k), g1)"
    using k(1) by (auto simp: list_all2_conv_all_nth)
  obtain t0 where p0: "ps0 ! k = (name, t0)" using rel(1) k(2) by (cases "ps0 ! k") auto
  from rel(2) p0 k(2) obtain g0 g1 where
    g0: "uniform01 g0 = uniform01 g" and ip: "init_param name t0 g0 = Inr (t, g1)"
    using u by auto
  have "(name, shape t0) \<in> set (specs_of ps0)"
    using p0 k(1) len by (force simp: specs_of_def in_set_conv_nth)
  then have "(name, shape t0) \<in> set (model_specs (nat (vocab_size c)) (nat (embedding_dim c))
       (nat (hidden_dim c)) (nat (output_dim c)) (bidirectional c) (nat (num_layers c)))"
    using s r(7) by simp
  moreover have "0 < nat (vocab_size c)" "0 < nat (hidden_dim c)"
    using r(1) by (auto simp: accepted_def)
  ultimately have ini: "initialisable (name, shape t0)"
    and excl: "\<not> (str_in ''weight'' name \<and> str_in ''bias'' name)"
    using model_specs_names model_specs_exclusive by fastforce+
  show ?thesis
  proof (cases "str_in ''weight'' name")
    case True
    with ini have sh: "length (shape t0) = 2" by (auto simp: initialisable_def)
    from True ip have x: "xavier_uniform t0 g0 = Inr (t, g1)" by (simp add: init_param_def)
    note d = xavier_uniform_data[OF x sh]
    from True excl have nb: "\<not> str_in ''bias'' name" by simp
    show ?thesis using True nb x d sh g0 by auto
  next
    case False
    with ini have b: "str_in ''bias'' name" by (auto simp: initialisable_def)
    with False ip have "t = zeros_fill t0" by (simp add: init_param_def)
    then show ?thesis using False b by (simp add: zeros_fill_def)
  qed
qed


text \<open>
  Claim C3. Right after construction every registered parameter has a name that marks it
  as a weight or as a bias. A bias has every entry exactly zero. A weight is the result
  of Xavier uniform initialisation: it is a matrix, and entry \<open>k\<close> is
  \<open>a * (2 * u - 1)\<close> for a uniform draw \<open>u\<close> of the generator and the bound
  \<open>a = sqrt (6 / (fan_in + fan_out))\<close>, so an entry is zero only when its draw is
  exactly one half.
\<close>

theorem initialisation_policy:
  assumes "LSTMClassifier c g = Inr (m, g')" and "(name, t) \<in> set (named_parameters m)"
  shows "(str_in ''bias'' name \<longrightarrow> (\<forall>v\<in>set (data t). v = 0) \<and> length (data t) = numel (shape t))
       \<and> (str_in ''weight'' name \<longrightarrow>
            (\<exists>t0 g0 g1. shape t0 = shape t \<and> uniform01 g0 = uniform01 g
                \<and> xavier_uniform t0 g0 = Inr (t, g1)
                \<and> length (shape t) = 2 \<and> 0 < shape t ! 0 + shape t ! 1
                \<and> data t = map (\<lambda>k. sqrt (6 / real (shape t ! 1 + shape t ! 0))
                                      * (2 * uniform01 g (offset g0 + k) - 1))
                               [0..<numel (shape t)]))
       \<and> (str_in ''weight'' name \<or> str_in ''bias'' name)"
  using assms by (rule parameter_after_construction)

theorem initialisation_policy_witness:
  "\<exists>m g' t. LSTMClassifier (scenario False) gen0 = Inr (m, g')
      \<and> (''fc.bias'', t) \<in> set (named_parameters m) \<and> str_in ''bias'' ''fc.bias''
      \<and> (\<forall>v\<in>set (data t). v = 0)"
proof -
  from LSTMClassifier_succeeds[OF accepted_scenario, of False gen0]
  obtain m g' where c: "LSTMClassifier (scenario False) gen0 = Inr (m, g')" by blast
  from get_parameter_specs(3)[OF LSTMClassifier_Inr(7)[OF c]]
  obtain t where t: "(''fc.bias'', t) \<in> set (named_parameters m)" by blast
  from initialisation_policy[OF c t] have "\<forall>v\<in>set (data t). v = 0" by simp
  with c t show ?thesis by auto
qed


text \<open>
  Claim C1 fails on the code. In the end-to-end scenario with uniform draws of \<open>3/4\<close>
  the row of the embedding table at the padding index is not the zero vector after
  construction: the initialisation pass treats \<^verbatim>\<open>embedding.weight\<close> as a weight and
  overwrites the whole table, the padding row with it.
\<close>

theorem padding_row_overwritten:
  "\<exists>m g'. LSTMClassifier (scenario False) gen0 = Inr (m, g')
      \<and> padding_row m = Inr (replicate 8 (sqrt (6 / 58) / 2))
      \<and> padding_row m \<noteq> Inr (replicate 8 0)"
proof -
  from LSTMClassifier_succeeds[OF accepted_scenario, of False gen0]
  obtain m g' where c: "LSTMClassifier (scenario False) gen0 = Inr (m, g')" by blast
  note r = LSTMClassifier_Inr[OF c]
  from get_parameter_specs(1)[OF r(7)] obtain w where
    w: "get_parameter m ''embedding.weight'' = Inr w" "shape w = [50, 8]"
       "(''embedding.weight'', w) \<in> set (named_parameters m)"
    by (auto simp: scenario_def)
  have "str_in ''weight'' ''embedding.weight''" by simp
  with parameter_after_construction[OF c w(3)] obtain g0 :: generator where
    "data w = map (\<lambda>k. sqrt (6 / real (shape w ! 1 + shape w ! 0))
                            * (2 * uniform01 gen0 (offset g0 + k) - 1)) [0..<numel (shape w)]"
    by blast
  then have d: "data w = map (\<lambda>k. sqrt (6 / 58) / 2) [0..<400]"
    using w(2) by (simp add: gen0_def numel_def)
  have "row w 0 = map (\<lambda>k. sqrt (6 / 58) / 2) [0..<8]"
    unfolding row_def d using w(2) by (simp add: take_map)
  then have "row w 0 = replicate 8 (sqrt (6 / 58) / 2)"
    by (simp add: map_replicate_const)
  moreover have "emb_padding_idx (embedding m) = 0" using r(2) by (simp add: scenario_def)
  ultimately have p: "padding_row m = Inr (replicate 8 (sqrt (6 / 58) / 2))"
    using w(1) by (simp add: padding_row_def)
  have "replicate 8 (sqrt (6 / 58) / 2) \<noteq> replicate (8::nat) (0::real)"
    by (simp add: replicate_eq_replicate)
  with p c show ?thesis by auto
qed

lemma single_layer_ignores_dropout:
  assumes "lstm_num_layers rnn = 1"
  shows "LSTM_forward (rnn\<lparr>lstm_dropout := q\<rparr>) train ws inp hx g
           = LSTM_forward rnn train ws inp hx g"
  using assms
  by (auto simp: LSTM_forward_def Let_def split: if_splits prod.splits option.splits)

lemma single_layer_draws_nothing:
  assumes "lstm_num_layers rnn = 1" "LSTM_forward rnn train ws inp hx g = Inr (out, hn, cn, g1)"
  shows "g1 = g"
  using assms
  by (auto simp: LSTM_forward_def Let_def split: if_splits prod.splits option.splits)

text \<open>
  Claim C5. With \<open>num_layers = 1\<close> the encoder is configured with inter-layer dropout
  0, its forward pass does not depend on the dropout attribute and draws nothing from the
  generator; with more than one layer the inter-layer dropout is the given probability.
\<close>

theorem inter_layer_dropout_configuration:
  assumes "LSTMClassifier c g = Inr (m, g')"
  shows "(num_layers c = 1 \<longrightarrow>
            lstm_dropout (lstm m) = 0
            \<and> LSTM_forward ((lstm m)\<lparr>lstm_dropout := q\<rparr>) train ws inp hx g1
                = LSTM_forward (lstm m) train ws inp hx g1
            \<and> (\<forall>out hn cn g2. LSTM_forward (lstm m) train ws inp hx g1 = Inr (out, hn, cn, g2)
                  \<longrightarrow> g2 = g1))
       \<and> (1 < num_layers c \<longrightarrow> lstm_dropout (lstm m) = dropout_rate c)"
proof -
  note r = LSTMClassifier_Inr[OF assms]
  have "num_layers c = 1 \<Longrightarrow> lstm_num_layers (lstm m) = 1" using r(3) by simp
  then show ?thesis
    using r(3) single_layer_ignores_dropout[of "lstm m" q train ws inp hx g1]
      single_layer_draws_nothing[of "lstm m" train ws inp hx g1]
    by auto
qed

theorem inter_layer_dropout_configuration_witness:
  "(\<exists>m g'. LSTMClassifier (scenario False) gen0 = Inr (m, g')
       \<and> num_layers (scenario False) = 1 \<and> lstm_dropout (lstm m) = 0)
   \<and> (\<exists>m g'. LSTMClassifier ((scenario False)\<lparr>num_layers := 2\<rparr>) gen0 = Inr (m, g')
       \<and> 1 < num_layers ((scenario False)\<lparr>num_layers := 2\<rparr>) \<and> lstm_dropout (lstm m) = 1 / 2)"
proof -
  from LSTMClassifier_succeeds[OF accepted_scenario, of False gen0]
  obtain m g' where c: "LSTMClassifier (scenario False) gen0 = Inr (m, g')" by blast
  have "accepted ((scenario False)\<lparr>num_layers := 2\<rparr>)" by (simp add: accepted_def scenario_def)
  from LSTMClassifier_succeeds[OF this, of gen0]
  obtain m2 g2 where c2: "LSTMClassifier ((scenario False)\<lparr>num_layers := 2\<rparr>) gen0 = Inr (m2, g2)"
    by blast
  have "lstm_dropout (lstm m) = 0"
    using inter_layer_dropout_configuration[OF c] by (simp add: scenario_def)
  moreover have "lstm_dropout (lstm m2) = 1 / 2"
    using inter_layer_dropout_configuration[OF c2] by (simp add: scenario_def)
  ultimately show ?thesis using c c2 by (auto simp: scenario_def)
qed

section \<open>Shapes in the forward pass\<close>

lemma has_shape2_iff:
  "has_shape2 B F a \<longleftrightarrow> length a = B \<and> (\<forall>r\<in>set a. length r = F)"
  by (simp add: has_shape2_def list_all_iff)

lemma has_shape3_iff:
  "has_shape3 B T F x \<longleftrightarrow> length x = B \<and> (\<forall>s\<in>set x. length s = T \<and> (\<forall>v\<in>set s. length v = F))"
  by (simp add: has_shape3_def has_shape2_iff list_all_iff)

lemma row_length:
  assumes "filled w" "shape w = [R, C]" "i < R"
  shows "length (row w i) = C"
proof -
  have len: "length (data w) = R * C" using assms(1,2) by (simp add: filled_def numel_def)
  have "Suc i * C \<le> R * C" using assms(3) by (intro mult_le_mono1) simp
  then have "C \<le> R * C - i * C" by simp
  then show ?thesis using assms(2) len by (simp add: row_def)
qed

lemma matvec_length [simp]: "length (matvec w x) = shape w ! 0"
  by (simp add: matvec_def rows_def)

lemma lstm_cell_length:
  assumes "map shape ws = cell_shapes In H" "list_all filled ws" "length h = H" "length c = H"
  shows "length (fst (lstm_cell H ws x (h, c))) = H \<and> length (snd (lstm_cell H ws x (h, c))) = H"
proof -
  from assms(1) obtain w0 w1 w2 w3 where ws: "ws = [w0, w1, w2, w3]"
    and s: "shape w0 = [4 * H, In]" "shape w1 = [4 * H, H]" "shape w2 = [4 * H]" "shape w3 = [4 * H]"
    by (auto simp: cell_shapes_def map_eq_Cons_conv)
  from assms(2) ws have "filled w2" "filled w3" by simp_all
  with s have d: "length (data w2) = 4 * H" "length (data w3) = 4 * H"
    by (simp_all add: filled_def numel_def)
  show ?thesis using s d assms(3,4)
    by (simp add: ws lstm_cell_def Let_def vadd_def vmul_def)
qed

lemma lstm_seq_shape:
  assumes "map shape ws = cell_shapes In H" "list_all filled ws" "length (fst hc) = H" "length (snd hc) = H"
  shows "has_shape2 (length xs) H (fst (lstm_seq H ws hc xs))
         \<and> length (fst (snd (lstm_seq H ws hc xs))) = H
         \<and> length (snd (snd (lstm_seq H ws hc xs))) = H"
  using assms(3,4)
proof (induction xs arbitrary: hc)
  case Nil
  then show ?case by (simp add: has_shape2_iff)
next
  case (Cons x xs)
  obtain h c where hc: "hc = (h, c)" by (cases hc)
  obtain h' c' where st: "lstm_cell H ws x (h, c) = (h', c')" by (cases "lstm_cell H ws x (h, c)")
  from Cons.prems hc have "length h = H" "length c = H" by simp_all
  from lstm_cell_length[OF assms(1,2) this, of x] st have l: "length h' = H" "length c' = H" by simp_all
  obtain ys hT cT where r: "lstm_seq H ws (h', c') xs = (ys, hT, cT)"
    by (cases "lstm_seq H ws (h', c') xs")
  from Cons.IH[of "(h', c')"] l r have
    "has_shape2 (length xs) H ys" "length hT = H" "length cT = H" by simp_all
  then show ?case using hc st r l by (simp add: has_shape2_iff)
qed

lemma lstm_direction_shape:
  assumes "map shape ws = cell_shapes In H" "list_all filled ws" "length h = H" "length c = H"
  shows "has_shape2 (length xs) H (fst (lstm_direction H ws rv (h, c) xs))
         \<and> length (fst (snd (lstm_direction H ws rv (h, c) xs))) = H
         \<and> length (snd (snd (lstm_direction H ws rv (h, c) xs))) = H"
proof -
  let ?xs = "if rv then rev xs else xs"
  obtain ys hT cT where r: "lstm_seq H ws (h, c) ?xs = (ys, hT, cT)"
    by (cases "lstm_seq H ws (h, c) ?xs")
  from lstm_seq_shape[OF assms(1,2), of "(h, c)" ?xs] assms(3,4) r
  have "has_shape2 (length xs) H ys" "length hT = H" "length cT = H" by (simp_all split: if_splits)
  then show ?thesis using r by (simp add: lstm_direction_def has_shape2_iff)
qed


lemma map2_append_shape:
  assumes "has_shape2 T H ys" "has_shape2 T H zs"
  shows "has_shape2 T (H + H) (map2 (@) ys zs)"
proof -
  have "\<And>p. p \<in> set (zip ys zs) \<Longrightarrow> length (fst p) = H \<and> length (snd p) = H"
    using assms by (auto simp: has_shape2_iff dest: set_zip_leftD set_zip_rightD)
  then show ?thesis using assms by (auto simp: has_shape2_iff)
qed

lemma direction_runs_shape:
  assumes ws: "map shape ws = cell_shapes In H" "list_all filled ws"
    and h: "has_shape2 B H h" and c: "has_shape2 B H c"
    and inp: "has_shape3 B T In' inp"
    and r: "r \<in> set (map (\<lambda>(b, xs). lstm_direction H ws rv (h ! b, c ! b) xs) (enumerate 0 inp))"
  shows "has_shape2 T H (fst r) \<and> length (fst (snd r)) = H \<and> length (snd (snd r)) = H"
proof -
  from r obtain b xs where bx: "(b, xs) \<in> set (enumerate 0 inp)"
    and req: "r = lstm_direction H ws rv (h ! b, c ! b) xs" by auto
  from bx have b: "b < length inp" and xs: "xs = inp ! b" by (auto simp: in_set_enumerate_eq)
  from inp b xs have t: "length xs = T" and bB: "b < B" by (auto simp: has_shape3_iff)
  from h c bB have "length (h ! b) = H" "length (c ! b) = H" by (auto simp: has_shape2_iff)
  from lstm_direction_shape[OF ws this, of xs rv] t req show ?thesis by simp
qed

lemma lstm_layer_shape:
  assumes ws: "map shape ws = layer_shapes In H bi" "list_all filled ws"
    and h0: "length h0 = num_directions bi" "list_all (has_shape2 B H) h0"
    and c0: "length c0 = num_directions bi" "list_all (has_shape2 B H) c0"
    and inp: "has_shape3 B T In' inp"
    and res: "lstm_layer H bi ws h0 c0 inp = (out, hn, cn)"
  shows "has_shape3 B T (H * num_directions bi) out
         \<and> length hn = num_directions bi \<and> list_all (has_shape2 B H) hn
         \<and> length cn = num_directions bi \<and> list_all (has_shape2 B H) cn"
proof -
  define fwd where "fwd = map (\<lambda>(b, xs). lstm_direction H (take 4 ws) False (h0 ! 0 ! b, c0 ! 0 ! b) xs)
                  (enumerate 0 inp)"
  define bwd where "bwd = map (\<lambda>(b, xs). lstm_direction H (take 4 (drop 4 ws)) True (h0 ! 1 ! b, c0 ! 1 ! b) xs)
                  (enumerate 0 inp)"
  have B: "length inp = B" using inp by (simp add: has_shape3_iff)
  have lf: "length fwd = B" "length bwd = B" using B by (simp_all add: fwd_def bwd_def)
  have w0: "map shape (take 4 ws) = cell_shapes In H" "list_all filled (take 4 ws)"
    using ws by (auto simp: layer_shapes_def cell_shapes_def take_map[symmetric] list_all_iff
                      dest: in_set_takeD split: if_splits)
  have s0: "has_shape2 B H (h0 ! 0)" "has_shape2 B H (c0 ! 0)"
    using h0 c0 by (auto simp: list_all_length num_directions_def split: if_splits)
  have f: "\<And>r. r \<in> set fwd \<Longrightarrow>
             has_shape2 T H (fst r) \<and> length (fst (snd r)) = H \<and> length (snd (snd r)) = H"
    unfolding fwd_def using direction_runs_shape[OF w0 s0 inp] by blast
  have fh: "has_shape2 B H (map (\<lambda>r. fst (snd r)) fwd)" "has_shape2 B H (map (\<lambda>r. snd (snd r)) fwd)"
    using f lf by (auto simp: has_shape2_iff)
  show ?thesis
  proof (cases bi)
    case False
    with res have o: "out = map fst fwd" "hn = [map (\<lambda>r. fst (snd r)) fwd]"
      "cn = [map (\<lambda>r. snd (snd r)) fwd]"
      by (simp_all add: lstm_layer_def Let_def fwd_def)
    have "has_shape3 B T H out" unfolding o using f lf
      by (auto simp: has_shape3_def list_all_iff)
    then show ?thesis using False fh unfolding o(2,3)
      by (simp add: num_directions_def)
  next
    case True
    have w1: "map shape (take 4 (drop 4 ws)) = cell_shapes In H" "list_all filled (take 4 (drop 4 ws))"
      using ws True
      by (auto simp: layer_shapes_def cell_shapes_def take_map[symmetric] drop_map[symmetric]
                     list_all_iff dest!: in_set_takeD in_set_dropD)
    have s1: "has_shape2 B H (h0 ! 1)" "has_shape2 B H (c0 ! 1)"
      using h0 c0 True by (auto simp: list_all_length num_directions_def)
    have b: "\<And>r. r \<in> set bwd \<Longrightarrow>
             has_shape2 T H (fst r) \<and> length (fst (snd r)) = H \<and> length (snd (snd r)) = H"
      unfolding bwd_def using direction_runs_shape[OF w1 s1 inp] by blast
    have bh: "has_shape2 B H (map (\<lambda>r. fst (snd r)) bwd)" "has_shape2 B H (map (\<lambda>r. snd (snd r)) bwd)"
      using b lf by (auto simp: has_shape2_iff)
    from True res have o: "out = map2 (\<lambda>r s. map2 (@) (fst r) (fst s)) fwd bwd"
      "hn = [map (\<lambda>r. fst (snd r)) fwd, map (\<lambda>r. fst (snd r)) bwd]"
      "cn = [map (\<lambda>r. snd (snd r)) fwd, map (\<lambda>r. snd (snd r)) bwd]"
      by (simp_all add: lstm_layer_def Let_def fwd_def bwd_def)
    have out: "has_shape3 B T (H * 2) out"
    proof -
      have "\<And>p. p \<in> set (zip fwd bwd) \<Longrightarrow> has_shape2 T (H * 2) (map2 (@) (fst (fst p)) (fst (snd p)))"
      proof -
        fix p assume "p \<in> set (zip fwd bwd)"
        then have "fst p \<in> set fwd" "snd p \<in> set bwd"
          by (metis prod.collapse set_zip_leftD, metis prod.collapse set_zip_rightD)
        with f b have "has_shape2 T H (fst (fst p))" "has_shape2 T H (fst (snd p))" by blast+
        from map2_append_shape[OF this] show "has_shape2 T (H * 2) (map2 (@) (fst (fst p)) (fst (snd p)))"
          by (simp add: mult_2_right)
      qed
      then show ?thesis unfolding o using lf
        by (auto simp: has_shape3_def list_all_iff)
    qed
    show ?thesis using True out fh bh unfolding o(2,3)
      by (simp add: num_directions_def)
  qed
qed

lemma mask_vec_length [simp]: "length (mask_vec f k v) = length v"
  by (induction v arbitrary: k) auto

lemma mask_mat_lengths [simp]: "map length (mask_mat f k a) = map length a"
  by (induction a arbitrary: k) auto

lemma mask_tensor3_lengths [simp]:
  "map (map length) (mask_tensor3 f k x) = map (map length) x"
  by (induction x arbitrary: k) auto

lemma has_shape3_lengths:
  "has_shape3 B T F x \<longleftrightarrow>
     length (map (map length) x) = B
     \<and> (\<forall>l\<in>set (map (map length) x). length l = T \<and> (\<forall>n\<in>set l. n = F))"
  by (auto simp: has_shape3_iff)

lemma has_shape3_cong:
  "map (map length) x = map (map length) y \<Longrightarrow> has_shape3 B T F x = has_shape3 B T F y"
  by (simp only: has_shape3_lengths)

lemma dropout_shape:
  "has_shape3 B T F (fst (dropout p train x g)) = has_shape3 B T F x"
  by (rule has_shape3_cong) (simp add: dropout_def comp_def)

lemma mask_tensor3_length [simp]: "length (mask_tensor3 f k x) = length x"
  by (induction x arbitrary: k) auto

lemma dropout_length [simp]: "length (fst (dropout p train x g)) = length x"
  by (simp add: dropout_def)

lemma dropout_gen:
  "uniform01 (snd (dropout p train x g)) = uniform01 g"
  "stdnormal (snd (dropout p train x g)) = stdnormal g"
  by (simp_all add: dropout_def advance_def)

lemma dropout_eval [simp]: "dropout p False x g = (x, g)"
  by (simp add: dropout_def)

lemma layer_shapes_length [simp]: "length (layer_shapes In H bi) = 4 * num_directions bi"
  by (simp add: layer_shapes_def cell_shapes_def num_directions_def)

lemma lstm_layers_shape:
  assumes "map shape ws = stack_shapes In H bi n" "list_all filled ws"
    and "length h0 = n * num_directions bi" "list_all (has_shape2 B H) h0"
    and "length c0 = n * num_directions bi" "list_all (has_shape2 B H) c0"
    and "has_shape3 B T In' inp"
    and "hidden_size rnn = H" "lstm_bidirectional rnn = bi"
    and "lstm_layers n rnn train ws h0 c0 inp g = (y, hs, cs, g')"
  shows "length hs = n * num_directions bi \<and> list_all (has_shape2 B H) hs
         \<and> length cs = n * num_directions bi \<and> list_all (has_shape2 B H) cs
         \<and> uniform01 g' = uniform01 g \<and> stdnormal g' = stdnormal g"
  using assms
proof (induction n arbitrary: ws h0 c0 inp g y hs cs g' In In')
  case 0
  then show ?case by simp
next
  case (Suc n)
  let ?D = "num_directions bi"
  obtain out hn cn where l: "lstm_layer H bi (take (4 * ?D) ws) (take ?D h0) (take ?D c0) inp = (out, hn, cn)"
    by (cases "lstm_layer H bi (take (4 * ?D) ws) (take ?D h0) (take ?D c0) inp")
  obtain out' g1 where d: "(if n > 0 then dropout (lstm_dropout rnn) train out g else (out, g)) = (out', g1)"
    by (cases "(if n > 0 then dropout (lstm_dropout rnn) train out g else (out, g))")
  obtain y2 hs2 cs2 g2 where r:
    "lstm_layers n rnn train (drop (4 * ?D) ws) (drop ?D h0) (drop ?D c0) out' g1 = (y2, hs2, cs2, g2)"
    by (cases "lstm_layers n rnn train (drop (4 * ?D) ws) (drop ?D h0) (drop ?D c0) out' g1")
  from Suc.prems(10) l d r Suc.prems(8,9) have res: "hs = hn @ hs2" "cs = cn @ cs2" "g' = g2"
    by (simp_all add: Let_def)
  have w1: "map shape (take (4 * ?D) ws) = layer_shapes In H bi"
    using Suc.prems(1) by (simp add: take_map[symmetric])
  have w2: "map shape (drop (4 * ?D) ws) = stack_shapes (H * ?D) H bi n"
    using Suc.prems(1) by (simp add: drop_map[symmetric])
  have f1: "list_all filled (take (4 * ?D) ws)" "list_all filled (drop (4 * ?D) ws)"
    using Suc.prems(2) by (auto simp: list_all_iff dest: in_set_takeD in_set_dropD)
  have D1: "1 \<le> ?D" by (simp add: num_directions_def)
  have h1: "length (take ?D h0) = ?D" "list_all (has_shape2 B H) (take ?D h0)"
           "length (drop ?D h0) = n * ?D" "list_all (has_shape2 B H) (drop ?D h0)"
    using Suc.prems(3,4) by (auto simp: list_all_iff dest: in_set_takeD in_set_dropD)
  have c1: "length (take ?D c0) = ?D" "list_all (has_shape2 B H) (take ?D c0)"
           "length (drop ?D c0) = n * ?D" "list_all (has_shape2 B H) (drop ?D c0)"
    using Suc.prems(5,6) by (auto simp: list_all_iff dest: in_set_takeD in_set_dropD)
  note ls = lstm_layer_shape[OF w1 f1(1) h1(1,2) c1(1,2) Suc.prems(7) l]
  have o': "has_shape3 B T (H * ?D) out'" and g1: "uniform01 g1 = uniform01 g" "stdnormal g1 = stdnormal g"
    using d ls dropout_shape[of B T "H * ?D" "lstm_dropout rnn" train out g]
          dropout_gen[of "lstm_dropout rnn" train out g]
    by (auto split: if_splits)
  note ih = Suc.IH[OF w2 f1(2) h1(3,4) c1(3,4) o' Suc.prems(8,9) r]
  show ?case using ls ih res g1 by simp
qed

section \<open>The weights of a well-formed classifier\<close>

lemma upt_0_2: "[0..<2] = [0, Suc 0]"
  by (simp add: numeral_2_eq_2 upt_rec)

lemma layer_specs_shapes:
  "map snd (layer_specs E H bi l)
     = layer_shapes (if l = 0 then E else H * num_directions bi) H bi"
  by (simp add: layer_specs_def cell_specs_def layer_shapes_def cell_shapes_def num_directions_def
                Let_def upt_0_2)

lemma upper_layers_shapes:
  "map snd (concat (map (layer_specs E H bi) [Suc k..<Suc k + n]))
     = stack_shapes (H * num_directions bi) H bi n"
proof (induction n arbitrary: k)
  case 0
  then show ?case by simp
next
  case (Suc n)
  have "[Suc k..<Suc k + Suc n] = Suc k # [Suc (Suc k)..<Suc (Suc k) + n]"
    by (simp add: upt_conv_Cons)
  then show ?case using Suc.IH[of "Suc k"] layer_specs_shapes[of E H bi "Suc k"] by simp
qed

lemma lstm_specs_shapes: "map snd (lstm_specs E H bi L) = stack_shapes E H bi L"
proof (cases L)
  case 0
  then show ?thesis by (simp add: lstm_specs_def)
next
  case (Suc n)
  have "[0..<Suc n] = 0 # [Suc 0..<Suc 0 + n]" by (simp add: upt_conv_Cons)
  then show ?thesis
    using Suc upper_layers_shapes[of E H bi 0 n] layer_specs_shapes[of E H bi 0]
    by (simp add: lstm_specs_def)
qed

lemma is_prefix_append [simp]: "is_prefix xs (xs @ ys)"
  by (induction xs) auto

lemma map_decompose:
  assumes "map f ps = x # (ls @ [sw, sb])"
  shows "\<exists>pe pl pw pb. ps = pe # pl @ [pw, pb] \<and> f pe = x \<and> map f pl = ls \<and> f pw = sw \<and> f pb = sb"
proof -
  from assms obtain pe ps1 where a: "ps = pe # ps1" "f pe = x"
    and b: "map f ps1 = ls @ [sw, sb]"
    by (auto simp: map_eq_Cons_conv)
  from b obtain pl ps2 where c: "ps1 = pl @ ps2" "map f pl = ls" and d: "map f ps2 = [sw, sb]"
    by (auto simp: map_eq_append_conv)
  from d obtain pw pb where e: "ps2 = [pw, pb]" "f pw = sw" "f pb = sb"
    by (auto simp: map_eq_Cons_conv)
  show ?thesis using a c e by auto
qed

lemma params_decompose:
  assumes "specs_of ps = model_specs V E H outd bi L"
  shows "\<exists>pe pl pw pb. ps = pe # pl @ [pw, pb]
           \<and> fst pe = ''embedding.weight'' \<and> shape (snd pe) = [V, E]
           \<and> specs_of pl = map (\<lambda>p. (''lstm.'' @ fst p, snd p)) (lstm_specs E H bi L)
           \<and> fst pw = ''fc.weight'' \<and> shape (snd pw) = [outd, H * num_directions bi]
           \<and> fst pb = ''fc.bias'' \<and> shape (snd pb) = [outd]"
proof -
  define f where "f = (\<lambda>p::string \<times> tensor. (fst p, shape (snd p)))"
  define ls where "ls = map (\<lambda>p. (''lstm.'' @ fst p, snd p)) (lstm_specs E H bi L)"
  define sw where "sw = (''fc.weight'', [outd, H * num_directions bi])"
  define sb where "sb = (''fc.bias'', [outd])"
  from assms have "map f ps = (''embedding.weight'', [V, E]) # (ls @ [sw, sb])"
    unfolding specs_of_def model_specs_def f_def ls_def sw_def sb_def by simp
  from map_decompose[OF this] obtain pe pl pw pb where
    d: "ps = pe # pl @ [pw, pb]" "f pe = (''embedding.weight'', [V, E])" "map f pl = ls"
       "f pw = sw" "f pb = sb"
    by blast
  have "fst pe = ''embedding.weight''" "shape (snd pe) = [V, E]"
       "fst pw = ''fc.weight''" "shape (snd pw) = [outd, H * num_directions bi]"
       "fst pb = ''fc.bias''" "shape (snd pb) = [outd]"
    using d(2,4,5) by (simp_all add: f_def sw_def sb_def prod_eq_iff)
  moreover have "specs_of pl = map (\<lambda>p. (''lstm.'' @ fst p, snd p)) (lstm_specs E H bi L)"
    using d(3) by (simp add: specs_of_def f_def ls_def)
  ultimately show ?thesis using d(1) by blast
qed

lemma flat_weights_wf:
  assumes "wf_model m"
  shows "map shape (flat_weights m)
           = stack_shapes (emb_dim (embedding m)) (hidden_size (lstm m))
               (lstm_bidirectional (lstm m)) (lstm_num_layers (lstm m))"
    and "list_all filled (flat_weights m)"
proof -
  let ?E = "emb_dim (embedding m)" and ?H = "hidden_size (lstm m)"
  let ?bi = "lstm_bidirectional (lstm m)" and ?L = "lstm_num_layers (lstm m)"
  from assms have sp: "specs_of (named_parameters m) =
       model_specs (num_embeddings (embedding m)) ?E ?H (out_features (fc m)) ?bi ?L"
    and fl: "list_all (\<lambda>p. filled (snd p)) (named_parameters m)"
    by (simp_all add: wf_model_def)
  from params_decompose[OF sp] obtain pe pl pw pb where
    ps: "named_parameters m = pe # pl @ [pw, pb]" and n: "fst pe = ''embedding.weight''"
    "fst pw = ''fc.weight''" "fst pb = ''fc.bias''"
    and l: "specs_of pl = map (\<lambda>p. (''lstm.'' @ fst p, snd p)) (lstm_specs ?E ?H ?bi ?L)"
    by blast
  have "map fst pl = map (\<lambda>p. ''lstm.'' @ fst p) (lstm_specs ?E ?H ?bi ?L)"
    using arg_cong[OF l, of "map fst"] by (simp add: specs_of_def comp_def)
  then have "set (map fst pl) = set (map (\<lambda>p. ''lstm.'' @ fst p) (lstm_specs ?E ?H ?bi ?L))"
    by simp
  then have "\<And>p. p \<in> set pl \<Longrightarrow> \<exists>q. fst p = ''lstm.'' @ q"
    by (simp only: set_map) blast
  then have "\<forall>p\<in>set pl. is_prefix ''lstm.'' (fst p)"
    using is_prefix_append[of "''lstm.''"] by metis
  then have "filter (\<lambda>p. is_prefix ''lstm.'' (fst p)) pl = pl" by (simp add: filter_id_conv)
  then have fw: "flat_weights m = map snd pl"
    using ps n by (simp add: flat_weights_def)
  have "map shape (map snd pl) = map snd (specs_of pl)" by (simp add: specs_of_def comp_def)
  also have "\<dots> = map snd (lstm_specs ?E ?H ?bi ?L)" by (simp add: l comp_def)
  finally show "map shape (flat_weights m) = stack_shapes ?E ?H ?bi ?L"
    using fw lstm_specs_shapes by simp
  show "list_all filled (flat_weights m)"
    using fl ps fw by (simp add: list_all_iff)
qed

section \<open>The stages of the forward pass\<close>

lemma wf_parameters:
  assumes "wf_model m"
  shows "\<exists>w. get_parameter m ''embedding.weight'' = Inr w \<and> filled w
             \<and> shape w = [num_embeddings (embedding m), emb_dim (embedding m)]"
    and "\<exists>w. get_parameter m ''fc.weight'' = Inr w \<and> filled w
             \<and> shape w = [out_features (fc m), in_features (fc m)]"
    and "\<exists>b. get_parameter m ''fc.bias'' = Inr b \<and> filled b \<and> shape b = [out_features (fc m)]"
proof -
  from assms have sp: "specs_of (named_parameters m) =
       model_specs (num_embeddings (embedding m)) (emb_dim (embedding m)) (hidden_size (lstm m))
         (out_features (fc m)) (lstm_bidirectional (lstm m)) (lstm_num_layers (lstm m))"
    and fl: "\<And>p. p \<in> set (named_parameters m) \<Longrightarrow> filled (snd p)"
    and inf: "in_features (fc m) = hidden_size (lstm m) * num_directions (lstm_bidirectional (lstm m))"
    by (simp_all add: wf_model_def list_all_iff)
  note g = get_parameter_specs[OF sp]
  show "\<exists>w. get_parameter m ''embedding.weight'' = Inr w \<and> filled w
             \<and> shape w = [num_embeddings (embedding m), emb_dim (embedding m)]"
    using g(1) fl by fastforce
  show "\<exists>w. get_parameter m ''fc.weight'' = Inr w \<and> filled w
             \<and> shape w = [out_features (fc m), in_features (fc m)]"
    using g(2) fl inf by fastforce
  show "\<exists>b. get_parameter m ''fc.bias'' = Inr b \<and> filled b \<and> shape b = [out_features (fc m)]"
    using g(3) fl by fastforce
qed

lemma embedding_lookup_shape:
  assumes "filled w" "shape w = [V, E]" "valid_input V T x"
  shows "embedding_lookup w x = Inr (map (map (\<lambda>i. row w (nat i))) x)"
    and "has_shape3 (length x) T E (map (map (\<lambda>i. row w (nat i))) x)"
proof -
  from assms(3) have v: "\<And>r i. r \<in> set x \<Longrightarrow> i \<in> set r \<Longrightarrow> 0 \<le> i \<and> i < int V"
    and t: "\<And>r. r \<in> set x \<Longrightarrow> length r = T"
    by (auto simp: valid_input_def list_all_iff)
  from v have "\<not> list_ex (list_ex (\<lambda>i. i < 0 \<or> i \<ge> int (shape w ! 0))) x"
    using assms(2) by (fastforce simp: list_ex_iff)
  then show "embedding_lookup w x = Inr (map (map (\<lambda>i. row w (nat i))) x)"
    by (simp add: embedding_lookup_def)
  have "\<And>r i. r \<in> set x \<Longrightarrow> i \<in> set r \<Longrightarrow> length (row w (nat i)) = E"
  proof -
    fix r i assume "r \<in> set x" "i \<in> set r"
    with v have "nat i < V" by fastforce
    from row_length[OF assms(1,2) this] show "length (row w (nat i)) = E" .
  qed
  then show "has_shape3 (length x) T E (map (map (\<lambda>i. row w (nat i))) x)"
    using t by (auto simp: has_shape3_iff)
qed

lemma embed_wf:
  assumes "wf_model m" "valid_input (num_embeddings (embedding m)) T x"
  shows "\<exists>e g1. embed m x g = Inr (e, g1) \<and> has_shape3 (length x) T (emb_dim (embedding m)) e
           \<and> uniform01 g1 = uniform01 g \<and> stdnormal g1 = stdnormal g"
proof -
  from wf_parameters(1)[OF assms(1)] obtain w where
    w: "get_parameter m ''embedding.weight'' = Inr w" "filled w"
       "shape w = [num_embeddings (embedding m), emb_dim (embedding m)]" by blast
  note l = embedding_lookup_shape[OF w(2,3) assms(2)]
  let ?looked = "map (map (\<lambda>i. row w (nat i))) x"
  obtain e g1 where d: "dropout (dropout_p m) (training m) ?looked g = (e, g1)"
    by (cases "dropout (dropout_p m) (training m) ?looked g")
  have "has_shape3 (length x) T (emb_dim (embedding m)) e"
    using dropout_shape[of "length x" T "emb_dim (embedding m)" "dropout_p m" "training m" ?looked g]
          l(2) d by simp
  moreover have "uniform01 g1 = uniform01 g" "stdnormal g1 = stdnormal g"
    using dropout_gen[of "dropout_p m" "training m" ?looked g] d by simp_all
  moreover have "embed m x g = Inr (e, g1)" using w(1) l(1) d by (simp add: embed_def)
  ultimately show ?thesis by blast
qed

lemma zeros3_shape:
  "length (zeros3 a b c) = a" "list_all (has_shape2 b c) (zeros3 a b c)"
  by (simp_all add: zeros3_def has_shape2_def list_all_iff)

lemma lstm_layer_states_length:
  "lstm_layer H bi ws h0 c0 inp = (out, hn, cn) \<Longrightarrow> length hn = num_directions bi"
  by (auto simp: lstm_layer_def Let_def num_directions_def split: if_splits)

lemma last_layer_hidden_eq:
  assumes "lstm_layers n rnn train ws h0 c0 inp g = (y, hs, cs, g')" "0 < n"
  shows "length hs = n * num_directions (lstm_bidirectional rnn)
         \<and> drop ((n - 1) * num_directions (lstm_bidirectional rnn)) hs
             = last_layer_hidden n rnn train ws h0 c0 inp g"
  using assms
proof (induction n arbitrary: ws h0 c0 inp g y hs cs g')
  case 0
  then show ?case by simp
next
  case (Suc n)
  let ?D = "num_directions (lstm_bidirectional rnn)"
  obtain out hn cn where l: "lstm_layer (hidden_size rnn) (lstm_bidirectional rnn)
       (take (4 * ?D) ws) (take ?D h0) (take ?D c0) inp = (out, hn, cn)"
    by (cases "lstm_layer (hidden_size rnn) (lstm_bidirectional rnn)
       (take (4 * ?D) ws) (take ?D h0) (take ?D c0) inp")
  obtain out' g1 where d: "(if n > 0 then dropout (lstm_dropout rnn) train out g else (out, g)) = (out', g1)"
    by (cases "(if n > 0 then dropout (lstm_dropout rnn) train out g else (out, g))")
  obtain y2 hs2 cs2 g2 where r:
    "lstm_layers n rnn train (drop (4 * ?D) ws) (drop ?D h0) (drop ?D c0) out' g1 = (y2, hs2, cs2, g2)"
    by (cases "lstm_layers n rnn train (drop (4 * ?D) ws) (drop ?D h0) (drop ?D c0) out' g1")
  from Suc.prems(1) l d r have res: "hs = hn @ hs2" by (simp add: Let_def)
  have lh: "length hn = ?D" using lstm_layer_states_length[OF l] .
  show ?case
  proof (cases "n = 0")
    case True
    with r have "hs2 = []" by simp
    with True res lh l show ?thesis by (simp add: Let_def)
  next
    case False
    then have n: "0 < n" by simp
    from Suc.IH[OF r n] have ih: "length hs2 = n * ?D"
      "drop ((n - 1) * ?D) hs2 = last_layer_hidden n rnn train (drop (4 * ?D) ws) (drop ?D h0) (drop ?D c0) out' g1"
      by simp_all
    have "n * ?D - ?D = (n - 1) * ?D" by (simp add: diff_mult_distrib)
    then have "drop (n * ?D) hs = drop ((n - 1) * ?D) hs2" using res lh n by simp
    moreover have "last_layer_hidden (Suc n) rnn train ws h0 c0 inp g
        = last_layer_hidden n rnn train (drop (4 * ?D) ws) (drop ?D h0) (drop ?D c0) out' g1"
      using l d False by (simp add: Let_def)
    ultimately show ?thesis using ih res lh by simp
  qed
qed


lemma LSTM_forward_wf:
  assumes "wf_model m" "has_shape3 B T (emb_dim (embedding m)) e" "1 \<le> T"
  shows "\<exists>out hidden cell g2.
           LSTM_forward (lstm m) (training m) (flat_weights m) e None g1 = Inr (out, hidden, cell, g2)
           \<and> length hidden = lstm_num_layers (lstm m) * num_directions (lstm_bidirectional (lstm m))
           \<and> list_all (has_shape2 B (hidden_size (lstm m))) hidden
           \<and> drop ((lstm_num_layers (lstm m) - 1) * num_directions (lstm_bidirectional (lstm m))) hidden
               = last_layer_hidden (lstm_num_layers (lstm m)) (lstm m) (training m) (flat_weights m)
                   (zeros3 (lstm_num_layers (lstm m) * num_directions (lstm_bidirectional (lstm m)))
                      B (hidden_size (lstm m)))
                   (zeros3 (lstm_num_layers (lstm m) * num_directions (lstm_bidirectional (lstm m)))
                      B (hidden_size (lstm m))) e g1
           \<and> uniform01 g2 = uniform01 g1 \<and> stdnormal g2 = stdnormal g1"
proof -
  let ?L = "lstm_num_layers (lstm m)" and ?D = "num_directions (lstm_bidirectional (lstm m))"
  let ?H = "hidden_size (lstm m)"
  let ?z = "zeros3 (?L * ?D) B ?H"
  from assms(1) have i: "input_size (lstm m) = emb_dim (embedding m)" and L: "0 < ?L"
    by (simp_all add: wf_model_def)
  from assms(2) have B: "length e = B" by (simp add: has_shape3_iff)
  have c1: "\<not> list_ex (list_ex (\<lambda>v. length v \<noteq> input_size (lstm m))) e"
    using assms(2) i by (auto simp: has_shape3_iff list_ex_iff)
  have c2: "\<not> list_ex (\<lambda>xs. xs = []) e"
    using assms(2,3) by (auto simp: has_shape3_iff list_ex_iff)
  obtain out hidden cell g2 where
    r: "lstm_layers ?L (lstm m) (training m) (flat_weights m) ?z ?z e g1 = (out, hidden, cell, g2)"
    by (cases "lstm_layers ?L (lstm m) (training m) (flat_weights m) ?z ?z e g1")
  have f: "LSTM_forward (lstm m) (training m) (flat_weights m) e None g1 = Inr (out, hidden, cell, g2)"
    using c1 c2 r B by (simp add: LSTM_forward_def Let_def)
  note s = lstm_layers_shape[OF flat_weights_wf[OF assms(1)] zeros3_shape zeros3_shape assms(2) refl refl r]
  note l = last_layer_hidden_eq[OF r L]
  show ?thesis using f s l by simp
qed

lemma select_hidden_wf:
  assumes "length hidden = L * num_directions bi" "0 < L" "list_all (has_shape2 B H) hidden"
  shows "\<exists>sel. select_hidden bi hidden = Inr sel \<and> has_shape2 B (H * num_directions bi) sel
           \<and> sel = (if bi then map2 (@) (drop ((L - 1) * num_directions bi) hidden ! 0)
                                        (drop ((L - 1) * num_directions bi) hidden ! 1)
                    else drop ((L - 1) * num_directions bi) hidden ! 0)"
proof (cases bi)
  case False
  with assms have len: "length hidden = L" by (simp add: num_directions_def)
  have "nat (int L - 1) = L - 1" by simp
  then have p: "py_index hidden (- 1) = Inr (hidden ! (L - 1))"
    using len assms(2) by (simp add: py_index_def Let_def)
  have "has_shape2 B H (hidden ! (L - 1))"
    using assms(2,3) len by (simp add: list_all_length)
  then show ?thesis using False p len assms(2) by (simp add: select_hidden_def num_directions_def)
next
  case True
  with assms have len: "length hidden = L * 2" by (simp add: num_directions_def)
  have n: "nat (int (L * 2) - 2) = (L - 1) * 2" "nat (int (L * 2) - 1) = (L - 1) * 2 + 1"
    using assms(2) by (simp_all add: nat_diff_distrib' algebra_simps)
  have p: "py_index hidden (- 2) = Inr (hidden ! ((L - 1) * 2))"
          "py_index hidden (- 1) = Inr (hidden ! ((L - 1) * 2 + 1))"
    using len assms(2) n by (simp_all add: py_index_def Let_def)
  have lt: "(L - 1) * 2 < length hidden" "(L - 1) * 2 + 1 < length hidden"
    using len assms(2) by auto
  then have sh: "has_shape2 B H (hidden ! ((L - 1) * 2))" "has_shape2 B H (hidden ! ((L - 1) * 2 + 1))"
    using assms(3) by (simp_all add: list_all_length)
  then have eq: "length (hidden ! ((L - 1) * 2)) = length (hidden ! ((L - 1) * 2 + 1))"
    by (simp add: has_shape2_iff)
  have c: "cat_dim1 (hidden ! ((L - 1) * 2)) (hidden ! ((L - 1) * 2 + 1))
            = Inr (map2 (@) (hidden ! ((L - 1) * 2)) (hidden ! ((L - 1) * 2 + 1)))"
    using eq by (simp add: cat_dim1_def)
  have "has_shape2 B (H * 2) (map2 (@) (hidden ! ((L - 1) * 2)) (hidden ! ((L - 1) * 2 + 1)))"
    using map2_append_shape[OF sh] by (simp add: mult_2_right)
  moreover have "drop ((L - 1) * 2) hidden ! 0 = hidden ! ((L - 1) * 2)"
    "drop ((L - 1) * 2) hidden ! 1 = hidden ! ((L - 1) * 2 + 1)"
    using lt by simp_all
  ultimately show ?thesis using True p c by (simp add: select_hidden_def num_directions_def)
qed

lemma fc_forward_wf:
  assumes "wf_model m" "has_shape2 B (in_features (fc m)) sel"
  shows "\<exists>logits w b. fc_forward m sel = Inr logits \<and> has_shape2 B (out_features (fc m)) logits
           \<and> get_parameter m ''fc.weight'' = Inr w \<and> get_parameter m ''fc.bias'' = Inr b
           \<and> logits = map (\<lambda>r. vadd (matvec w r) (data b)) sel"
proof -
  from wf_parameters(2,3)[OF assms(1)] obtain w b where
    w: "get_parameter m ''fc.weight'' = Inr w" "shape w = [out_features (fc m), in_features (fc m)]"
    and b: "get_parameter m ''fc.bias'' = Inr b" "filled b" "shape b = [out_features (fc m)]"
    by blast
  from b have lb: "length (data b) = out_features (fc m)" by (simp add: filled_def numel_def)
  have "\<not> list_ex (\<lambda>r. length r \<noteq> shape w ! 1) sel"
    using assms(2) w(2) by (auto simp: has_shape2_iff list_ex_iff)
  then have f: "fc_forward m sel = Inr (map (\<lambda>r. vadd (matvec w r) (data b)) sel)"
    using w(1) b(1) by (simp add: fc_forward_def Linear_forward_def)
  have "has_shape2 B (out_features (fc m)) (map (\<lambda>r. vadd (matvec w r) (data b)) sel)"
    using assms(2) w(2) lb by (auto simp: has_shape2_iff vadd_def)
  with f w(1) b(1) show ?thesis by blast
qed

lemma forward_wf:
  assumes "wf_model m" "valid_input (num_embeddings (embedding m)) T x"
  shows "\<exists>e g1 logits g2 hs w b.
           embed m x g = Inr (e, g1) \<and> forward m x g = Inr (logits, g2)
           \<and> hs = last_layer_hidden (lstm_num_layers (lstm m)) (lstm m) (training m) (flat_weights m)
                   (zeros3 (lstm_num_layers (lstm m) * num_directions (lstm_bidirectional (lstm m)))
                      (length x) (hidden_size (lstm m)))
                   (zeros3 (lstm_num_layers (lstm m) * num_directions (lstm_bidirectional (lstm m)))
                      (length x) (hidden_size (lstm m))) e g1
           \<and> length hs = num_directions (lstm_bidirectional (lstm m))
           \<and> list_all (has_shape2 (length x) (hidden_size (lstm m))) hs
           \<and> has_shape2 (length x) (in_features (fc m))
                (if lstm_bidirectional (lstm m) then map2 (@) (hs ! 0) (hs ! 1) else hs ! 0)
           \<and> fc_forward m (if lstm_bidirectional (lstm m) then map2 (@) (hs ! 0) (hs ! 1) else hs ! 0)
                = Inr logits
           \<and> get_parameter m ''fc.weight'' = Inr w \<and> get_parameter m ''fc.bias'' = Inr b
           \<and> logits = map (\<lambda>r. vadd (matvec w r) (data b))
                          (if lstm_bidirectional (lstm m) then map2 (@) (hs ! 0) (hs ! 1) else hs ! 0)
           \<and> has_shape2 (length x) (out_features (fc m)) logits"
proof -
  let ?L = "lstm_num_layers (lstm m)" and ?bi = "lstm_bidirectional (lstm m)"
  let ?D = "num_directions (lstm_bidirectional (lstm m))"
  let ?H = "hidden_size (lstm m)"
  from assms(1) have L: "0 < ?L" and inf: "in_features (fc m) = ?H * ?D"
    by (simp_all add: wf_model_def)
  from assms(2) have T: "1 \<le> T" by (simp add: valid_input_def)
  from embed_wf[OF assms, of g] obtain e g1 where
    e: "embed m x g = Inr (e, g1)" "has_shape3 (length x) T (emb_dim (embedding m)) e" by blast
  from LSTM_forward_wf[OF assms(1) e(2) T, of g1] obtain out hidden cell g2 where
    l: "LSTM_forward (lstm m) (training m) (flat_weights m) e None g1 = Inr (out, hidden, cell, g2)"
       "length hidden = ?L * ?D" "list_all (has_shape2 (length x) ?H) hidden"
       "drop ((?L - 1) * ?D) hidden
          = last_layer_hidden ?L (lstm m) (training m) (flat_weights m)
              (zeros3 (?L * ?D) (length x) ?H) (zeros3 (?L * ?D) (length x) ?H) e g1"
    by blast
  define hs where "hs = drop ((?L - 1) * ?D) hidden"
  have "length hs = ?L * ?D - (?L - 1) * ?D" using l(2) by (simp add: hs_def)
  also have "\<dots> = ?D" using L by (cases ?L) simp_all
  finally have lhs: "length hs = ?D" .
  have shs: "list_all (has_shape2 (length x) ?H) hs"
    using l(3) by (auto simp: hs_def list_all_iff dest: in_set_dropD)
  define sel where "sel = (if ?bi then map2 (@) (hs ! 0) (hs ! 1) else hs ! 0)"
  from select_hidden_wf[OF l(2) L l(3)] obtain sel0 where
    s0: "select_hidden ?bi hidden = Inr sel0" "has_shape2 (length x) (?H * ?D) sel0"
        "sel0 = (if ?bi then map2 (@) (drop ((?L - 1) * ?D) hidden ! 0) (drop ((?L - 1) * ?D) hidden ! 1)
                 else drop ((?L - 1) * ?D) hidden ! 0)"
    by blast
  have "sel0 = sel" unfolding sel_def hs_def by (rule s0(3))
  with s0 inf have
    s: "select_hidden ?bi hidden = Inr sel" "has_shape2 (length x) (in_features (fc m)) sel"
    by simp_all
  from fc_forward_wf[OF assms(1) s(2)] obtain logits w b where
    f: "fc_forward m sel = Inr logits" "has_shape2 (length x) (out_features (fc m)) logits"
       "get_parameter m ''fc.weight'' = Inr w" "get_parameter m ''fc.bias'' = Inr b"
       "logits = map (\<lambda>r. vadd (matvec w r) (data b)) sel"
    by blast
  have fw: "forward m x g = Inr (logits, g2)"
    using e(1) l(1) s(1) f(1) by (simp add: forward_def forward_from_def)
  show ?thesis
    using e(1) fw l(4) lhs shs s(2) f unfolding hs_def[symmetric] sel_def[symmetric]
    by (intro exI[of _ e] exI[of _ g1] exI[of _ logits] exI[of _ g2] exI[of _ hs]
              exI[of _ w] exI[of _ b]) (simp add: sel_def)
qed

lemma LSTMClassifier_wf:
  assumes "LSTMClassifier c g = Inr (m, g')"
  shows "wf_model m"
proof -
  note r = LSTMClassifier_Inr[OF assms]
  have "\<And>p. p \<in> set (named_parameters m) \<Longrightarrow> filled (snd p)"
  proof -
    fix p assume p: "p \<in> set (named_parameters m)"
    obtain name t where nt: "p = (name, t)" by (cases p)
    from parameter_after_construction[OF assms, of name t] p nt
    have "length (data t) = numel (shape t)" by auto
    then show "filled (snd p)" using nt by (simp add: filled_def)
  qed
  then have "list_all (\<lambda>p. filled (snd p)) (named_parameters m)" by (simp add: list_all_iff)
  then show ?thesis
    using r by (auto simp: wf_model_def accepted_def num_directions_def nat_mult_distrib)
qed

lemma wf_model_mode [simp]: "wf_model (eval_mode m) = wf_model m" "wf_model (train_mode m) = wf_model m"
  by (simp_all add: wf_model_def eval_mode_def train_mode_def)

lemma valid_batch0: "valid_input 50 10 batch0"
  by (auto simp: valid_input_def batch0_def list_all_iff)

text \<open>
  Claim C7. On a classifier with the shapes of a constructed one, for every batch of
  sequences of one length \<open>T \<ge> 1\<close> whose indices lie in \<open>[0, vocab_size)\<close>, the forward
  pass returns a matrix with one row for each sequence and \<open>output_dim\<close> columns. The
  result is the affine image \<open>W r + b\<close> of each row \<open>r\<close> of the selected hidden state:
  nothing is applied after the linear layer.
\<close>

theorem forward_output_shape:
  assumes "wf_model m" and "valid_input (num_embeddings (embedding m)) T x"
  shows "\<exists>logits g' w b hidden'.
           forward m x g = Inr (logits, g')
           \<and> has_shape2 (length x) (out_features (fc m)) logits
           \<and> get_parameter m ''fc.weight'' = Inr w \<and> get_parameter m ''fc.bias'' = Inr b
           \<and> has_shape2 (length x) (in_features (fc m)) hidden'
           \<and> logits = map (\<lambda>r. vadd (matvec w r) (data b)) hidden'"
  using forward_wf[OF assms, of g] by blast

theorem forward_output_shape_witness:
  "\<exists>m g'. LSTMClassifier (scenario False) gen0 = Inr (m, g')
      \<and> wf_model m \<and> valid_input (num_embeddings (embedding m)) 10 batch0
      \<and> (\<exists>logits g2. forward m batch0 g' = Inr (logits, g2) \<and> has_shape2 4 2 logits)"
proof -
  from LSTMClassifier_succeeds[OF accepted_scenario, of False gen0]
  obtain m g' where c: "LSTMClassifier (scenario False) gen0 = Inr (m, g')" by blast
  note w = LSTMClassifier_wf[OF c] and r = LSTMClassifier_Inr[OF c]
  have n: "num_embeddings (embedding m) = 50" "out_features (fc m) = 2"
    using r(2,4) by (simp_all add: scenario_def)
  have v: "valid_input (num_embeddings (embedding m)) 10 batch0" using valid_batch0 n by simp
  from forward_output_shape[OF w v, of g'] n
  have "\<exists>logits g2. forward m batch0 g' = Inr (logits, g2) \<and> has_shape2 4 2 logits"
    by (auto simp: batch0_def)
  with c w v show ?thesis by blast
qed


lemma lstm_layer_directions:
  "lstm_layer H bi ws h0 c0 inp = (out, hn, cn) \<Longrightarrow>
     hn ! 0 = map (\<lambda>(b, xs). fst (snd (lstm_direction H (take 4 ws) False (h0 ! 0 ! b, c0 ! 0 ! b) xs)))
                  (enumerate 0 inp)
     \<and> (bi \<longrightarrow> hn ! 1 = map (\<lambda>(b, xs). fst (snd (lstm_direction H (take 4 (drop 4 ws)) True
                                                    (h0 ! 1 ! b, c0 ! 1 ! b) xs)))
                             (enumerate 0 inp))"
  by (auto simp: lstm_layer_def Let_def split: if_splits)

text \<open>
  Claim C6. The classifier is fed by the final hidden states of the last layer only
  (\<open>last_layer_hidden\<close>, one matrix of shape batch by \<open>hidden_dim\<close> for each direction;
  by \<open>lstm_layer_directions\<close> the first is that of the forward direction and the second
  that of the backward direction). When bidirectional, the two are joined along the
  feature axis into a matrix of shape batch by \<open>2 * hidden_dim\<close>; when unidirectional the
  one of the forward direction is used as it is.
\<close>

theorem last_layer_hidden_feeds_classifier:
  assumes "wf_model m" and "valid_input (num_embeddings (embedding m)) T x"
  shows "\<exists>embedded g1 logits g2 hs.
           embed m x g = Inr (embedded, g1) \<and> forward m x g = Inr (logits, g2)
           \<and> hs = last_layer_hidden (lstm_num_layers (lstm m)) (lstm m) (training m) (flat_weights m)
                   (zeros3 (lstm_num_layers (lstm m) * num_directions (lstm_bidirectional (lstm m)))
                      (length x) (hidden_size (lstm m)))
                   (zeros3 (lstm_num_layers (lstm m) * num_directions (lstm_bidirectional (lstm m)))
                      (length x) (hidden_size (lstm m))) embedded g1
           \<and> list_all (has_shape2 (length x) (hidden_size (lstm m))) hs
           \<and> (if lstm_bidirectional (lstm m)
               then length hs = 2
                    \<and> has_shape2 (length x) (2 * hidden_size (lstm m)) (map2 (@) (hs ! 0) (hs ! 1))
                    \<and> fc_forward m (map2 (@) (hs ! 0) (hs ! 1)) = Inr logits
               else length hs = 1 \<and> fc_forward m (hs ! 0) = Inr logits)"
proof -
  from assms(1) have inf: "in_features (fc m)
      = hidden_size (lstm m) * num_directions (lstm_bidirectional (lstm m))"
    by (simp add: wf_model_def)
  from forward_wf[OF assms, of g] obtain e g1 logits g2 hs where
    f: "embed m x g = Inr (e, g1)" "forward m x g = Inr (logits, g2)"
       "hs = last_layer_hidden (lstm_num_layers (lstm m)) (lstm m) (training m) (flat_weights m)
                   (zeros3 (lstm_num_layers (lstm m) * num_directions (lstm_bidirectional (lstm m)))
                      (length x) (hidden_size (lstm m)))
                   (zeros3 (lstm_num_layers (lstm m) * num_directions (lstm_bidirectional (lstm m)))
                      (length x) (hidden_size (lstm m))) e g1"
       "length hs = num_directions (lstm_bidirectional (lstm m))"
       "list_all (has_shape2 (length x) (hidden_size (lstm m))) hs"
       "has_shape2 (length x) (in_features (fc m))
                (if lstm_bidirectional (lstm m) then map2 (@) (hs ! 0) (hs ! 1) else hs ! 0)"
       "fc_forward m (if lstm_bidirectional (lstm m) then map2 (@) (hs ! 0) (hs ! 1) else hs ! 0)
                = Inr logits"
    by blast
  have "if lstm_bidirectional (lstm m)
               then length hs = 2
                    \<and> has_shape2 (length x) (2 * hidden_size (lstm m)) (map2 (@) (hs ! 0) (hs ! 1))
                    \<and> fc_forward m (map2 (@) (hs ! 0) (hs ! 1)) = Inr logits
               else length hs = 1 \<and> fc_forward m (hs ! 0) = Inr logits"
    using f(4,6,7) inf by (auto simp: num_directions_def mult.commute split: if_splits)
  with f(1,2,3,5) show ?thesis by blast
qed

theorem last_layer_hidden_feeds_classifier_witness:
  "\<exists>m g'. LSTMClassifier ((scenario True)\<lparr>num_layers := 2\<rparr>) gen0 = Inr (m, g')
      \<and> wf_model m \<and> valid_input (num_embeddings (embedding m)) 10 batch0
      \<and> lstm_bidirectional (lstm m) \<and> lstm_num_layers (lstm m) = 2
      \<and> (\<exists>embedded g1 logits g2.
            embed m batch0 g' = Inr (embedded, g1) \<and> forward m batch0 g' = Inr (logits, g2)
            \<and> fc_forward m
                 (map2 (@)
                    (last_layer_hidden 2 (lstm m) (training m) (flat_weights m)
                       (zeros3 4 4 16) (zeros3 4 4 16) embedded g1 ! 0)
                    (last_layer_hidden 2 (lstm m) (training m) (flat_weights m)
                       (zeros3 4 4 16) (zeros3 4 4 16) embedded g1 ! 1))
                = Inr logits)"
proof -
  have "accepted ((scenario True)\<lparr>num_layers := 2\<rparr>)" by (simp add: accepted_def scenario_def)
  from LSTMClassifier_succeeds[OF this, of gen0]
  obtain m g' where c: "LSTMClassifier ((scenario True)\<lparr>num_layers := 2\<rparr>) gen0 = Inr (m, g')"
    by blast
  note w = LSTMClassifier_wf[OF c] and r = LSTMClassifier_Inr[OF c]
  have n: "num_embeddings (embedding m) = 50" "lstm_bidirectional (lstm m)"
    "lstm_num_layers (lstm m) = 2" "hidden_size (lstm m) = 16"
    using r(2,3) by (simp_all add: scenario_def)
  have v: "valid_input (num_embeddings (embedding m)) 10 batch0" using valid_batch0 n by simp
  have l: "length batch0 = 4" by (simp add: batch0_def)
  from last_layer_hidden_feeds_classifier[OF w v, of g'] n l
  have "\<exists>embedded g1 logits g2.
            embed m batch0 g' = Inr (embedded, g1) \<and> forward m batch0 g' = Inr (logits, g2)
            \<and> fc_forward m
                 (map2 (@)
                    (last_layer_hidden 2 (lstm m) (training m) (flat_weights m)
                       (zeros3 4 4 16) (zeros3 4 4 16) embedded g1 ! 0)
                    (last_layer_hidden 2 (lstm m) (training m) (flat_weights m)
                       (zeros3 4 4 16) (zeros3 4 4 16) embedded g1 ! 1))
                = Inr logits"
    by (auto simp: num_directions_def)
  with c w v n show ?thesis by blast
qed

text \<open>
  Claim C9. When some index of the input is negative or at least the vocabulary size, the
  forward pass raises the \<open>IndexError\<close> of the embedding lookup, in either mode.
\<close>

theorem out_of_range_index_fails:
  assumes "wf_model m"
    and "\<exists>r\<in>set x. \<exists>i\<in>set r. i < 0 \<or> int (num_embeddings (embedding m)) \<le> i"
  shows "forward m x g = Inl IndexError"
proof -
  from wf_parameters(1)[OF assms(1)] obtain w where
    w: "get_parameter m ''embedding.weight'' = Inr w"
       "shape w = [num_embeddings (embedding m), emb_dim (embedding m)]" by blast
  from assms(2) w(2) have "list_ex (list_ex (\<lambda>i. i < 0 \<or> i \<ge> int (shape w ! 0))) x"
    by (auto simp: list_ex_iff)
  then have "embed m x g = Inl IndexError"
    using w(1) by (simp add: embed_def embedding_lookup_def)
  then show ?thesis by (simp add: forward_def forward_from_def)
qed

theorem out_of_range_index_fails_witness:
  "\<exists>m g'. LSTMClassifier (scenario False) gen0 = Inr (m, g') \<and> wf_model m
      \<and> int (num_embeddings (embedding m)) \<le> 50
      \<and> forward m [[0, 50]] g' = Inl IndexError
      \<and> forward m [[3], [- 1]] g' = Inl IndexError"
proof -
  from LSTMClassifier_succeeds[OF accepted_scenario, of False gen0]
  obtain m g' where c: "LSTMClassifier (scenario False) gen0 = Inr (m, g')" by blast
  note w = LSTMClassifier_wf[OF c] and r = LSTMClassifier_Inr[OF c]
  have n: "num_embeddings (embedding m) = 50" using r(2) by (simp add: scenario_def)
  have "forward m [[0, 50]] g' = Inl IndexError"
    using out_of_range_index_fails[OF w, of "[[0, 50]]" g'] n by simp
  moreover have "forward m [[3], [- 1]] g' = Inl IndexError"
    using out_of_range_index_fails[OF w, of "[[3], [- 1]]" g'] by simp
  ultimately show ?thesis using c w n by auto
qed

section \<open>Modes and the generator\<close>

lemma lstm_layers_gen:
  "lstm_layers n rnn train ws h0 c0 inp g = (y, hs, cs, g')
     \<Longrightarrow> uniform01 g' = uniform01 g \<and> stdnormal g' = stdnormal g"
proof (induction n arbitrary: ws h0 c0 inp g y hs cs g')
  case 0
  then show ?case by simp
next
  case (Suc n)
  let ?D = "num_directions (lstm_bidirectional rnn)"
  obtain out hn cn where l: "lstm_layer (hidden_size rnn) (lstm_bidirectional rnn)
       (take (4 * ?D) ws) (take ?D h0) (take ?D c0) inp = (out, hn, cn)"
    by (cases "lstm_layer (hidden_size rnn) (lstm_bidirectional rnn)
       (take (4 * ?D) ws) (take ?D h0) (take ?D c0) inp")
  obtain out' g1 where d: "(if n > 0 then dropout (lstm_dropout rnn) train out g else (out, g)) = (out', g1)"
    by (cases "(if n > 0 then dropout (lstm_dropout rnn) train out g else (out, g))")
  obtain y2 hs2 cs2 g2 where r:
    "lstm_layers n rnn train (drop (4 * ?D) ws) (drop ?D h0) (drop ?D c0) out' g1 = (y2, hs2, cs2, g2)"
    by (cases "lstm_layers n rnn train (drop (4 * ?D) ws) (drop ?D h0) (drop ?D c0) out' g1")
  from Suc.prems l d r have res: "g' = g2" by (simp add: Let_def)
  have "uniform01 g1 = uniform01 g \<and> stdnormal g1 = stdnormal g"
    using d dropout_gen[of "lstm_dropout rnn" train out g] by (auto split: if_splits)
  with Suc.IH[OF r] res show ?case by simp
qed

lemma lstm_layers_eval:
  "lstm_layers n rnn False ws h0 c0 inp g = (y, hs, cs, g')
     \<Longrightarrow> g' = g \<and> lstm_layers n rnn False ws h0 c0 inp g2 = (y, hs, cs, g2)"
proof (induction n arbitrary: ws h0 c0 inp y hs cs g')
  case 0
  then show ?case by simp
next
  case (Suc n)
  let ?D = "num_directions (lstm_bidirectional rnn)"
  obtain out hn cn where l: "lstm_layer (hidden_size rnn) (lstm_bidirectional rnn)
       (take (4 * ?D) ws) (take ?D h0) (take ?D c0) inp = (out, hn, cn)"
    by (cases "lstm_layer (hidden_size rnn) (lstm_bidirectional rnn)
       (take (4 * ?D) ws) (take ?D h0) (take ?D c0) inp")
  obtain y2 hs2 cs2 g3 where r:
    "lstm_layers n rnn False (drop (4 * ?D) ws) (drop ?D h0) (drop ?D c0) out g = (y2, hs2, cs2, g3)"
    by (cases "lstm_layers n rnn False (drop (4 * ?D) ws) (drop ?D h0) (drop ?D c0) out g")
  from Suc.IH[OF r] have ih: "g3 = g"
    "lstm_layers n rnn False (drop (4 * ?D) ws) (drop ?D h0) (drop ?D c0) out g2 = (y2, hs2, cs2, g2)"
    by simp_all
  have d: "\<And>g. (if 0 < n then dropout (lstm_dropout rnn) False out g else (out, g)) = (out, g)"
    by simp
  from Suc.prems l r have "y = y2" "hs = hn @ hs2" "cs = cn @ cs2" "g' = g3"
    by (simp_all add: Let_def d)
  then show ?case using l ih by (simp add: Let_def d)
qed

lemma LSTM_forward_eval:
  "LSTM_forward rnn False ws inp hx g2
     = (case LSTM_forward rnn False ws inp hx g of
          Inl e \<Rightarrow> Inl e
        | Inr (out, hn, cn, g') \<Rightarrow> Inr (out, hn, cn, g2))"
proof -
  let ?D = "num_directions (lstm_bidirectional rnn)"
  let ?z = "zeros3 (lstm_num_layers rnn * ?D) (length inp) (hidden_size rnn)"
  obtain h0 c0 where hc: "(case hx of None \<Rightarrow> (?z, ?z) | Some hc \<Rightarrow> hc) = (h0, c0)"
    by (cases "(case hx of None \<Rightarrow> (?z, ?z) | Some hc \<Rightarrow> hc)")
  obtain y hs cs g' where r: "lstm_layers (lstm_num_layers rnn) rnn False ws h0 c0 inp g = (y, hs, cs, g')"
    by (cases "lstm_layers (lstm_num_layers rnn) rnn False ws h0 c0 inp g")
  from lstm_layers_eval[OF r, of g2]
  have "lstm_layers (lstm_num_layers rnn) rnn False ws h0 c0 inp g2 = (y, hs, cs, g2)" by simp
  with r hc show ?thesis by (simp add: LSTM_forward_def Let_def)
qed

lemma LSTM_forward_eval_gen:
  "LSTM_forward rnn False ws inp hx g = Inr (out, hn, cn, g') \<Longrightarrow> g' = g"
  using LSTM_forward_eval[of rnn ws inp hx g g] by (simp split: sum.splits)

lemma embed_eval:
  assumes "\<not> training m"
  shows "embed m x g2 = (case embed m x g of Inl e \<Rightarrow> Inl e | Inr (e, g') \<Rightarrow> Inr (e, g2))"
    and "embed m x g = Inr (e, g') \<Longrightarrow> g' = g"
  using assms by (auto simp: embed_def split: sum.splits)

lemma forward_from_eval:
  assumes "\<not> training m"
  shows "forward_from hx m x g2
           = (case forward_from hx m x g of Inl e \<Rightarrow> Inl e | Inr (y, g') \<Rightarrow> Inr (y, g2))"
proof (cases "embed m x g")
  case (Inl e)
  then show ?thesis using embed_eval(1)[OF assms, of x g2 g] by (simp add: forward_from_def)
next
  case (Inr r)
  obtain e g1 where r: "r = (e, g1)" by (cases r)
  with Inr embed_eval(2)[OF assms, of x g e g1] have eg: "embed m x g = Inr (e, g)" by simp
  then have eg2: "embed m x g2 = Inr (e, g2)" using embed_eval(1)[OF assms, of x g2 g] by simp
  show ?thesis
    using assms eg eg2 LSTM_forward_eval[of "lstm m" "flat_weights m" e hx g2 g]
    by (auto simp: forward_from_def split: sum.splits)
qed

lemma forward_from_eval_gen:
  assumes "\<not> training m" "forward_from hx m x g = Inr (y, g')"
  shows "g' = g"
  using forward_from_eval[OF assms(1), of hx x g g] assms(2) by simp

lemma embed_length: "embed m x g = Inr (e, g1) \<Longrightarrow> length e = length x"
proof -
  assume a: "embed m x g = Inr (e, g1)"
  then obtain w looked where "embedding_lookup w x = Inr looked"
    and d: "dropout (dropout_p m) (training m) looked g = (e, g1)"
    by (auto simp: embed_def split: sum.splits)
  then have "length looked = length x" by (auto simp: embedding_lookup_def split: if_splits)
  then show ?thesis using dropout_length[of "dropout_p m" "training m" looked g] d by simp
qed

lemma embed_gen:
  "embed m x g = Inr (e, g1) \<Longrightarrow> uniform01 g1 = uniform01 g \<and> stdnormal g1 = stdnormal g"
proof -
  assume a: "embed m x g = Inr (e, g1)"
  then obtain looked where d: "dropout (dropout_p m) (training m) looked g = (e, g1)"
    by (auto simp: embed_def split: sum.splits)
  show ?thesis using dropout_gen[of "dropout_p m" "training m" looked g] d by simp
qed

lemma forward_gen:
  assumes "forward m x g = Inr (y, g')"
  shows "uniform01 g' = uniform01 g \<and> stdnormal g' = stdnormal g"
proof -
  from assms obtain e g1 out hn cn where e: "embed m x g = Inr (e, g1)"
    and l: "LSTM_forward (lstm m) (training m) (flat_weights m) e None g1 = Inr (out, hn, cn, g')"
    by (auto simp: forward_def forward_from_def split: sum.splits)
  from l obtain h0 c0 where "lstm_layers (lstm_num_layers (lstm m)) (lstm m) (training m)
       (flat_weights m) h0 c0 e g1 = (out, hn, cn, g')"
    by (auto simp: LSTM_forward_def Let_def split: if_splits)
  from lstm_layers_gen[OF this] embed_gen[OF e] show ?thesis by simp
qed

lemma after_calls_gen:
  "uniform01 (after_calls m xs g) = uniform01 g \<and> stdnormal (after_calls m xs g) = stdnormal g"
proof (induction xs arbitrary: g)
  case Nil
  then show ?case by simp
next
  case (Cons x xs)
  show ?case
  proof (cases "forward m x g")
    case (Inl e)
    then show ?thesis using Cons.IH[of g] by simp
  next
    case (Inr r)
    obtain y g' where "r = (y, g')" by (cases r)
    with Inr forward_gen[of m x g y g'] Cons.IH[of g'] show ?thesis by simp
  qed
qed

lemma after_calls_eval:
  assumes "\<not> training m"
  shows "after_calls m xs g = g"
proof (induction xs)
  case Nil
  then show ?case by simp
next
  case (Cons x xs)
  show ?case
  proof (cases "forward m x g")
    case (Inl e)
    then show ?thesis using Cons.IH by simp
  next
    case (Inr r)
    obtain y g' where r: "r = (y, g')" by (cases r)
    with Inr forward_from_eval_gen[OF assms, of None x g y g'] have "g' = g"
      by (simp add: forward_def)
    with Inr r Cons.IH show ?thesis by simp
  qed
qed

lemma forward_zero_state:
  "forward m x g
     = forward_from
         (Some (zeros3 (lstm_num_layers (lstm m) * num_directions (lstm_bidirectional (lstm m)))
                  (length x) (hidden_size (lstm m)),
                zeros3 (lstm_num_layers (lstm m) * num_directions (lstm_bidirectional (lstm m)))
                  (length x) (hidden_size (lstm m)))) m x g"
proof (cases "embed m x g")
  case (Inl e)
  then show ?thesis by (simp add: forward_def forward_from_def)
next
  case (Inr r)
  obtain e g1 where r: "r = (e, g1)" by (cases r)
  with Inr embed_length[of m x g e g1] have "length e = length x" by simp
  then have "LSTM_forward (lstm m) (training m) (flat_weights m) e None g1
     = LSTM_forward (lstm m) (training m) (flat_weights m) e
         (Some (zeros3 (lstm_num_layers (lstm m) * num_directions (lstm_bidirectional (lstm m)))
                  (length x) (hidden_size (lstm m)),
                zeros3 (lstm_num_layers (lstm m) * num_directions (lstm_bidirectional (lstm m)))
                  (length x) (hidden_size (lstm m)))) g1"
    by (simp add: LSTM_forward_def Let_def)
  with Inr r show ?thesis by (simp add: forward_def forward_from_def)
qed


lemma training_mode [simp]: "\<not> training (eval_mode m)" "training (train_mode m)"
  by (simp_all add: eval_mode_def train_mode_def)

lemma mode_attributes [simp]:
  "embedding (eval_mode m) = embedding m" "fc (eval_mode m) = fc m" "lstm (eval_mode m) = lstm m"
  by (simp_all add: eval_mode_def)

lemma same_draws_advance: "same_draws g g2 \<Longrightarrow> same_draws (advance n g) (advance n g2)"
  by (simp add: same_draws_def advance_def add.assoc)

lemma dropout_same_draws:
  assumes "same_draws g g2"
  shows "fst (dropout p train x g) = fst (dropout p train x g2)
         \<and> same_draws (snd (dropout p train x g)) (snd (dropout p train x g2))"
proof -
  have "(\<lambda>k. keep_scale p (uniform01 g (offset g + k)))
          = (\<lambda>k. keep_scale p (uniform01 g2 (offset g2 + k)))"
    using assms by (simp add: same_draws_def)
  then show ?thesis using assms same_draws_advance[OF assms]
    by (simp add: dropout_def)
qed

lemma lstm_layers_same_draws:
  assumes "same_draws g g2"
    and "lstm_layers n rnn train ws h0 c0 inp g = (y, hs, cs, g')"
    and "lstm_layers n rnn train ws h0 c0 inp g2 = (y2, hs2, cs2, g2')"
  shows "y = y2 \<and> hs = hs2 \<and> cs = cs2 \<and> same_draws g' g2'"
  using assms
proof (induction n arbitrary: ws h0 c0 inp g g2 y hs cs g' y2 hs2 cs2 g2')
  case 0
  then show ?case by simp
next
  case (Suc n)
  let ?D = "num_directions (lstm_bidirectional rnn)"
  obtain out hn cn where l: "lstm_layer (hidden_size rnn) (lstm_bidirectional rnn)
       (take (4 * ?D) ws) (take ?D h0) (take ?D c0) inp = (out, hn, cn)"
    by (cases "lstm_layer (hidden_size rnn) (lstm_bidirectional rnn)
       (take (4 * ?D) ws) (take ?D h0) (take ?D c0) inp")
  obtain o1 g1 where d1: "(if n > 0 then dropout (lstm_dropout rnn) train out g else (out, g)) = (o1, g1)"
    by (cases "(if n > 0 then dropout (lstm_dropout rnn) train out g else (out, g))")
  obtain o2 g3 where d2: "(if n > 0 then dropout (lstm_dropout rnn) train out g2 else (out, g2)) = (o2, g3)"
    by (cases "(if n > 0 then dropout (lstm_dropout rnn) train out g2 else (out, g2))")
  have eq: "o1 = o2" and sd: "same_draws g1 g3"
    using d1 d2 dropout_same_draws[OF Suc.prems(1), of "lstm_dropout rnn" train out] Suc.prems(1)
    by (auto split: if_splits)
  obtain ya hsa csa ga where r1:
    "lstm_layers n rnn train (drop (4 * ?D) ws) (drop ?D h0) (drop ?D c0) o1 g1 = (ya, hsa, csa, ga)"
    by (cases "lstm_layers n rnn train (drop (4 * ?D) ws) (drop ?D h0) (drop ?D c0) o1 g1")
  obtain yb hsb csb gb where r2:
    "lstm_layers n rnn train (drop (4 * ?D) ws) (drop ?D h0) (drop ?D c0) o1 g3 = (yb, hsb, csb, gb)"
    by (cases "lstm_layers n rnn train (drop (4 * ?D) ws) (drop ?D h0) (drop ?D c0) o1 g3")
  note ih = Suc.IH[OF sd r1 r2]
  from Suc.prems(2) l d1 r1 have a: "y = ya" "hs = hn @ hsa" "cs = cn @ csa" "g' = ga"
    by (simp_all add: Let_def)
  from Suc.prems(3) l d2 r2 eq have b: "y2 = yb" "hs2 = hn @ hsb" "cs2 = cn @ csb" "g2' = gb"
    by (simp_all add: Let_def)
  show ?case using ih a b by simp
qed

lemma embed_same_draws:
  assumes "same_draws g g2"
  shows "(case embed m x g of
            Inl e \<Rightarrow> embed m x g2 = Inl e
          | Inr (e, g1) \<Rightarrow> (\<exists>g3. embed m x g2 = Inr (e, g3) \<and> same_draws g1 g3))"
proof (cases "get_parameter m ''embedding.weight''")
  case (Inl e)
  then show ?thesis by (simp add: embed_def)
next
  case (Inr w)
  show ?thesis
  proof (cases "embedding_lookup w x")
    case (Inl e)
    with Inr show ?thesis by (simp add: embed_def)
  next
    case looked: (Inr looked)
    obtain e g1 where d1: "dropout (dropout_p m) (training m) looked g = (e, g1)"
      by (cases "dropout (dropout_p m) (training m) looked g")
    obtain e2 g3 where d2: "dropout (dropout_p m) (training m) looked g2 = (e2, g3)"
      by (cases "dropout (dropout_p m) (training m) looked g2")
    from dropout_same_draws[OF assms, of "dropout_p m" "training m" looked] d1 d2
    have "e = e2" "same_draws g1 g3" by simp_all
    with Inr looked d1 d2 show ?thesis by (simp add: embed_def)
  qed
qed

lemma forward_from_same_draws:
  assumes "same_draws g g2"
  shows "map_sum id fst (forward_from hx m x g) = map_sum id fst (forward_from hx m x g2)"
proof (cases "embed m x g")
  case (Inl e)
  with embed_same_draws[OF assms, of m x] show ?thesis by (simp add: forward_from_def)
next
  case (Inr r)
  obtain e g1 where r: "r = (e, g1)" by (cases r)
  with Inr embed_same_draws[OF assms, of m x] obtain g3 where
    e2: "embed m x g2 = Inr (e, g3)" and sd: "same_draws g1 g3" by auto
  show ?thesis
  proof (cases "LSTM_forward (lstm m) (training m) (flat_weights m) e hx g1")
    case (Inl err)
    then have "LSTM_forward (lstm m) (training m) (flat_weights m) e hx g3 = Inl err"
      by (auto simp: LSTM_forward_def Let_def split: if_splits prod.splits)
    with Inl Inr r e2 show ?thesis by (simp add: forward_from_def)
  next
    case l1: (Inr res)
    obtain out hn cn g4 where res: "res = (out, hn, cn, g4)" by (cases res)
    let ?D = "num_directions (lstm_bidirectional (lstm m))"
    let ?z = "zeros3 (lstm_num_layers (lstm m) * ?D) (length e) (hidden_size (lstm m))"
    obtain h0 c0 where hc: "(case hx of None \<Rightarrow> (?z, ?z) | Some hc \<Rightarrow> hc) = (h0, c0)"
      by (cases "(case hx of None \<Rightarrow> (?z, ?z) | Some hc \<Rightarrow> hc)")
    from l1 res hc have ok: "\<not> list_ex (list_ex (\<lambda>v. length v \<noteq> input_size (lstm m))) e"
      "\<not> list_ex (\<lambda>xs. xs = []) e"
      and a: "lstm_layers (lstm_num_layers (lstm m)) (lstm m) (training m) (flat_weights m) h0 c0 e g1
              = (out, hn, cn, g4)"
      by (auto simp: LSTM_forward_def Let_def split: if_splits)
    obtain out2 hn2 cn2 g5 where b:
      "lstm_layers (lstm_num_layers (lstm m)) (lstm m) (training m) (flat_weights m) h0 c0 e g3
              = (out2, hn2, cn2, g5)"
      by (cases "lstm_layers (lstm_num_layers (lstm m)) (lstm m) (training m) (flat_weights m) h0 c0 e g3")
    from lstm_layers_same_draws[OF sd a b] have eq: "hn = hn2" by simp
    have l2: "LSTM_forward (lstm m) (training m) (flat_weights m) e hx g3 = Inr (out2, hn2, cn2, g5)"
      using ok b hc by (simp add: LSTM_forward_def Let_def)
    show ?thesis using Inr r e2 l1 res l2 eq
      by (auto simp: forward_from_def split: sum.splits)
  qed
qed



section \<open>Calls in sequence\<close>

lemma upt_0_4: "[0..<4] = [0, 1, 2, 3]"
  by (simp add: upt_rec numeral_eq_Suc)

lemma small_embed:
  "embed small_model [[0]] g
     = Inr ([[[keep_scale (1 / 2) (uniform01 g (offset g))]]], advance 1 g)"
  by (simp add: embed_def small_model_def get_parameter_def embedding_lookup_def row_def
        dropout_def numel_tensor3_def numel_mat_def)

lemma small_weights:
  "flat_weights small_model =
     [\<lparr>shape = [4, 1], data = [0, 0, 1, 0]\<rparr>, \<lparr>shape = [4, 1], data = [0, 0, 0, 0]\<rparr>,
      \<lparr>shape = [4], data = [0, 0, 0, 0]\<rparr>, \<lparr>shape = [4], data = [0, 0, 0, 0]\<rparr>]"
  by (simp add: flat_weights_def small_model_def)

lemma small_cell:
  "lstm_cell 1 [\<lparr>shape = [4, 1], data = [0, 0, 1, 0]\<rparr>, \<lparr>shape = [4, 1], data = [0, 0, 0, 0]\<rparr>,
      \<lparr>shape = [4], data = [0, 0, 0, 0]\<rparr>, \<lparr>shape = [4], data = [0, 0, 0, 0]\<rparr>] [v] ([0], [0])
     = ([tanh (tanh v / 2) / 2], [tanh v / 2])"
  by (simp add: lstm_cell_def Let_def matvec_def rows_def row_def vadd_def vmul_def sigmoid_def
        upt_0_4)


lemma small_encoder:
  "LSTM_forward (lstm small_model) (training small_model) (flat_weights small_model) [[[v]]] hx g
     = (case hx of
          None \<Rightarrow> Inr ([[[tanh (tanh v / 2) / 2]]], [[[tanh (tanh v / 2) / 2]]], [[[tanh v / 2]]], g)
        | Some hc \<Rightarrow> Inr (lstm_layers 1 (lstm small_model) True (flat_weights small_model)
                             (fst hc) (snd hc) [[[v]]] g))"
proof (cases hx)
  case None
  have l: "lstm_num_layers (lstm small_model) = Suc 0" "hidden_size (lstm small_model) = 1"
    "input_size (lstm small_model) = 1" "\<not> lstm_bidirectional (lstm small_model)"
    "training small_model"
    by (simp_all add: small_model_def)
  show ?thesis
    using None
    by (simp add: LSTM_forward_def Let_def l num_directions_def zeros3_def small_weights
          lstm_layer_def lstm_direction_def small_cell[simplified] enumerate_eq_zip)
next
  case (Some hc)
  have l: "lstm_num_layers (lstm small_model) = 1" "input_size (lstm small_model) = 1"
    "training small_model"
    by (simp_all add: small_model_def)
  show ?thesis using Some by (simp add: LSTM_forward_def Let_def l split: prod.splits)
qed

lemma small_forward:
  "forward small_model [[0]] g
     = Inr ([[tanh (tanh (keep_scale (1 / 2) (uniform01 g (offset g))) / 2) / 2]], advance 1 g)"
proof -
  have p: "get_parameter small_model ''fc.weight'' = Inr \<lparr>shape = [1, 1], data = [1]\<rparr>"
          "get_parameter small_model ''fc.bias'' = Inr \<lparr>shape = [1], data = [0]\<rparr>"
          "\<not> lstm_bidirectional (lstm small_model)"
    by (simp_all add: get_parameter_def small_model_def)
  show ?thesis
    by (simp add: forward_def forward_from_def small_embed small_encoder select_hidden_def p
          py_index_def fc_forward_def Linear_forward_def matvec_def rows_def row_def vadd_def)
qed

lemma small_after_call: "after_calls small_model [[[0]]] gen1 = advance 1 gen1"
  by (simp add: small_forward)

lemma small_outputs:
  "forward small_model [[0]] gen1 = Inr ([[tanh (tanh 2 / 2) / 2]], advance 1 gen1)"
  "forward small_model [[0]] (advance 1 gen1) = Inr ([[0]], advance 1 (advance 1 gen1))"
  by (simp_all add: small_forward gen1_def keep_scale_def advance_def)

lemma small_differs: "tanh (tanh 2 / 2) / 2 \<noteq> (0::real)"
  by (simp add: tanh_real_zero_iff)

lemma small_wf: "wf_model small_model"
  by (simp add: wf_model_def small_model_def specs_of_def model_specs_def lstm_specs_def
        layer_specs_def cell_specs_def num_directions_def Let_def filled_def numel_def
        str_of_nat.simps digit_char_def)

lemma small_valid: "valid_input 2 1 [[0]]"
  by (simp add: valid_input_def)


lemma small_cell_from:
  "lstm_cell 1 [\<lparr>shape = [4, 1], data = [0, 0, 1, 0]\<rparr>, \<lparr>shape = [4, 1], data = [0, 0, 0, 0]\<rparr>,
      \<lparr>shape = [4], data = [0, 0, 0, 0]\<rparr>, \<lparr>shape = [4], data = [0, 0, 0, 0]\<rparr>] [v] ([h], [c])
     = ([tanh (c / 2 + tanh v / 2) / 2], [c / 2 + tanh v / 2])"
  by (simp add: lstm_cell_def Let_def matvec_def rows_def row_def vadd_def vmul_def sigmoid_def
        upt_0_4)

lemma small_forward_from:
  "forward_from (Some ([[[h]]], [[[c]]])) (eval_mode small_model) [[0]] g
     = Inr ([[tanh (c / 2 + tanh 1 / 2) / 2]], g)"
proof -
  have e: "embed (eval_mode small_model) [[0]] g = Inr ([[[1]]], g)"
    by (simp add: embed_def small_model_def eval_mode_def get_parameter_def embedding_lookup_def
          row_def)
  have l: "lstm_num_layers (lstm small_model) = Suc 0"
    "hidden_size (lstm small_model) = 1"
    "input_size (lstm small_model) = 1"
    "\<not> lstm_bidirectional (lstm small_model)"
    by (simp_all add: small_model_def)
  have w: "flat_weights (eval_mode small_model) = flat_weights small_model"
    by (simp add: flat_weights_def eval_mode_def)
  have p: "get_parameter (eval_mode small_model) ''fc.weight'' = Inr \<lparr>shape = [1, 1], data = [1]\<rparr>"
          "get_parameter (eval_mode small_model) ''fc.bias'' = Inr \<lparr>shape = [1], data = [0]\<rparr>"
    by (simp_all add: get_parameter_def small_model_def eval_mode_def)
  have "LSTM_forward (lstm (eval_mode small_model)) (training (eval_mode small_model))
          (flat_weights (eval_mode small_model)) [[[1]]] (Some ([[[h]]], [[[c]]])) g
        = Inr ([[[tanh (c / 2 + tanh 1 / 2) / 2]]], [[[tanh (c / 2 + tanh 1 / 2) / 2]]],
               [[[c / 2 + tanh 1 / 2]]], g)"
    by (simp add: LSTM_forward_def Let_def l w num_directions_def small_weights
          lstm_layer_def lstm_direction_def small_cell_from[simplified] enumerate_eq_zip)
  then show ?thesis
    by (simp add: forward_from_def e select_hidden_def l p py_index_def fc_forward_def
          Linear_forward_def matvec_def rows_def row_def vadd_def)
qed

lemma initial_state_matters:
  "forward_from (Some ([[[0]]], [[[1]]])) (eval_mode small_model) [[0]] g
     \<noteq> forward (eval_mode small_model) [[0]] g"
proof -
  have "forward (eval_mode small_model) [[0]] g
          = forward_from (Some ([[[0]]], [[[0]]])) (eval_mode small_model) [[0]] g"
    using forward_zero_state[of "eval_mode small_model" "[[0]]" g]
    by (simp add: zeros3_def small_model_def eval_mode_def num_directions_def)
  then show ?thesis by (simp add: small_forward_from)
qed


lemma forward_runs_from_zero:
  assumes "wf_model m" "valid_input (num_embeddings (embedding m)) T x"
  shows "\<exists>embedded g1 out hidden cell g2 sel logits.
            embed m x g = Inr (embedded, g1)
          \<and> lstm_layers (lstm_num_layers (lstm m)) (lstm m) (training m) (flat_weights m)
               (replicate (lstm_num_layers (lstm m) * num_directions (lstm_bidirectional (lstm m)))
                  (replicate (length x) (replicate (hidden_size (lstm m)) 0)))
               (replicate (lstm_num_layers (lstm m) * num_directions (lstm_bidirectional (lstm m)))
                  (replicate (length x) (replicate (hidden_size (lstm m)) 0)))
               embedded g1 = (out, hidden, cell, g2)
          \<and> select_hidden (lstm_bidirectional (lstm m)) hidden = Inr sel
          \<and> fc_forward m sel = Inr logits
          \<and> forward m x g = Inr (logits, g2)"
proof -
  from forward_wf[OF assms, of g] obtain logits g2 where f: "forward m x g = Inr (logits, g2)"
    by blast
  then obtain e g1 out hidden cell sel where e: "embed m x g = Inr (e, g1)"
    and l: "LSTM_forward (lstm m) (training m) (flat_weights m) e None g1 = Inr (out, hidden, cell, g2)"
    and s: "select_hidden (lstm_bidirectional (lstm m)) hidden = Inr sel"
    and c: "fc_forward m sel = Inr logits"
    by (auto simp: forward_def forward_from_def split: sum.splits)
  have len: "length e = length x" using embed_length[OF e] .
  from l len have "lstm_layers (lstm_num_layers (lstm m)) (lstm m) (training m) (flat_weights m)
               (replicate (lstm_num_layers (lstm m) * num_directions (lstm_bidirectional (lstm m)))
                  (replicate (length x) (replicate (hidden_size (lstm m)) 0)))
               (replicate (lstm_num_layers (lstm m) * num_directions (lstm_bidirectional (lstm m)))
                  (replicate (length x) (replicate (hidden_size (lstm m)) 0)))
               e g1 = (out, hidden, cell, g2)"
    by (auto simp: LSTM_forward_def Let_def zeros3_def split: if_splits)
  with e s c f show ?thesis by blast
qed

text \<open>
  Claim C10 as stated fails in training mode. On the small classifier the same input gives
  \<open>tanh (tanh 2 / 2) / 2\<close> on a first call and \<open>0\<close> on the call after it: the first
  call has moved the random generator, so the second takes another dropout draw.
\<close>

theorem training_forward_depends_on_earlier_call:
  "wf_model small_model \<and> training small_model
   \<and> valid_input (num_embeddings (embedding small_model)) 1 [[0]]
   \<and> forward small_model [[0]] gen1 = Inr ([[tanh (tanh 2 / 2) / 2]], advance 1 gen1)
   \<and> forward small_model [[0]] (after_calls small_model [[[0]]] gen1)
       = Inr ([[0]], advance 1 (advance 1 gen1))
   \<and> map_sum id fst (forward small_model [[0]] (after_calls small_model [[[0]]] gen1))
       \<noteq> map_sum id fst (forward small_model [[0]] gen1)"
proof -
  have "training small_model" "num_embeddings (embedding small_model) = 2"
    by (simp_all add: small_model_def)
  then show ?thesis
    using small_wf small_valid small_outputs small_after_call small_differs by simp
qed

text \<open>
  Claim C10, as amended. Every forward call starts the encoder from hidden and cell states
  that are zero in every entry, and on a valid input the logits are what the stack run
  from these states yields (by \<open>initial_state_matters\<close> another initial state gives
  another result). The output is determined by the input, the classifier (parameters and
  mode) and the dropout draws the call takes: two generators with the same coming draws
  give the same output. An earlier call leaves nothing behind but the position of the
  random generator; in inference mode it does not move it either, so there a later call
  returns what it would have returned without the earlier ones.
\<close>

theorem forward_zero_state_and_draws:
  "forward m x g
     = forward_from
         (Some (replicate (lstm_num_layers (lstm m) * num_directions (lstm_bidirectional (lstm m)))
                  (replicate (length x) (replicate (hidden_size (lstm m)) 0)),
                replicate (lstm_num_layers (lstm m) * num_directions (lstm_bidirectional (lstm m)))
                  (replicate (length x) (replicate (hidden_size (lstm m)) 0)))) m x g
   \<and> (wf_model m \<and> valid_input (num_embeddings (embedding m)) T x \<longrightarrow>
        (\<exists>embedded g1 out hidden cell g2 sel logits.
            embed m x g = Inr (embedded, g1)
          \<and> lstm_layers (lstm_num_layers (lstm m)) (lstm m) (training m) (flat_weights m)
               (replicate (lstm_num_layers (lstm m) * num_directions (lstm_bidirectional (lstm m)))
                  (replicate (length x) (replicate (hidden_size (lstm m)) 0)))
               (replicate (lstm_num_layers (lstm m) * num_directions (lstm_bidirectional (lstm m)))
                  (replicate (length x) (replicate (hidden_size (lstm m)) 0)))
               embedded g1 = (out, hidden, cell, g2)
          \<and> select_hidden (lstm_bidirectional (lstm m)) hidden = Inr sel
          \<and> fc_forward m sel = Inr logits
          \<and> forward m x g = Inr (logits, g2)))
   \<and> (same_draws g g' \<longrightarrow> map_sum id fst (forward m x g) = map_sum id fst (forward m x g'))
   \<and> uniform01 (after_calls m xs g) = uniform01 g
   \<and> stdnormal (after_calls m xs g) = stdnormal g
   \<and> (\<not> training m \<longrightarrow>
        after_calls m xs g = g \<and> forward m x (after_calls m xs g) = forward m x g)"
proof -
  have a: "forward m x g
     = forward_from
         (Some (replicate (lstm_num_layers (lstm m) * num_directions (lstm_bidirectional (lstm m)))
                  (replicate (length x) (replicate (hidden_size (lstm m)) 0)),
                replicate (lstm_num_layers (lstm m) * num_directions (lstm_bidirectional (lstm m)))
                  (replicate (length x) (replicate (hidden_size (lstm m)) 0)))) m x g"
    using forward_zero_state[of m x g] by (simp add: zeros3_def)
  have c: "same_draws g g' \<Longrightarrow> map_sum id fst (forward m x g) = map_sum id fst (forward m x g')"
    using forward_from_same_draws[of g g' None m x] by (simp add: forward_def)
  have e: "\<not> training m \<Longrightarrow> after_calls m xs g = g" by (rule after_calls_eval)
  show ?thesis
    using a c e forward_runs_from_zero[of m T x g] after_calls_gen[of m xs g]
    by (intro conjI impI) simp_all
qed

theorem forward_zero_state_and_draws_witness:
  "wf_model small_model \<and> valid_input (num_embeddings (embedding small_model)) 1 [[0]]
   \<and> (\<exists>embedded g1 out hidden cell g2 sel.
          embed small_model [[0]] gen1 = Inr (embedded, g1)
        \<and> lstm_layers 1 (lstm small_model) True (flat_weights small_model)
             [[[0]]] [[[0]]] embedded g1 = (out, hidden, cell, g2)
        \<and> select_hidden False hidden = Inr sel
        \<and> fc_forward small_model sel = Inr [[tanh (tanh 2 / 2) / 2]]
        \<and> forward small_model [[0]] gen1 = Inr ([[tanh (tanh 2 / 2) / 2]], g2))
   \<and> same_draws gen0 (advance 320 gen0)
   \<and> map_sum id fst (forward small_model [[0]] gen0)
       = map_sum id fst (forward small_model [[0]] (advance 320 gen0))
   \<and> \<not> training (eval_mode small_model)
   \<and> forward (eval_mode small_model) [[0]] (after_calls (eval_mode small_model) [[[0]], [[1, 0]]] gen1)
       = forward (eval_mode small_model) [[0]] gen1"
proof -
  have n: "num_embeddings (embedding small_model) = 2" "lstm_num_layers (lstm small_model) = 1"
    "\<not> lstm_bidirectional (lstm small_model)" "hidden_size (lstm small_model) = 1"
    "training small_model"
    by (simp_all add: small_model_def)
  have v: "valid_input (num_embeddings (embedding small_model)) 1 [[0]]"
    using small_valid n by simp
  have s: "same_draws gen0 (advance 320 gen0)"
    by (simp add: same_draws_def gen0_def advance_def)
  have t: "\<not> training (eval_mode small_model)" by simp
  from forward_zero_state_and_draws[of small_model "[[0]]" gen1 1] small_wf v
  obtain embedded g1 out hidden cell g2 sel logits where
    r: "embed small_model [[0]] gen1 = Inr (embedded, g1)"
       "lstm_layers (lstm_num_layers (lstm small_model)) (lstm small_model) (training small_model)
          (flat_weights small_model)
          (replicate (lstm_num_layers (lstm small_model) * num_directions (lstm_bidirectional (lstm small_model)))
             (replicate (length [[0::int]]) (replicate (hidden_size (lstm small_model)) 0)))
          (replicate (lstm_num_layers (lstm small_model) * num_directions (lstm_bidirectional (lstm small_model)))
             (replicate (length [[0::int]]) (replicate (hidden_size (lstm small_model)) 0)))
          embedded g1 = (out, hidden, cell, g2)"
       "select_hidden (lstm_bidirectional (lstm small_model)) hidden = Inr sel"
       "fc_forward small_model sel = Inr logits"
       "forward small_model [[0]] gen1 = Inr (logits, g2)"
    by blast
  from r(5) small_outputs(1) have lg: "logits = [[tanh (tanh 2 / 2) / 2]]" by simp
  have r2: "lstm_layers 1 (lstm small_model) True (flat_weights small_model)
             [[[0]]] [[[0]]] embedded g1 = (out, hidden, cell, g2)"
    using r(2) n by (simp add: num_directions_def)
  have ex: "\<exists>embedded g1 out hidden cell g2 sel.
          embed small_model [[0]] gen1 = Inr (embedded, g1)
        \<and> lstm_layers 1 (lstm small_model) True (flat_weights small_model)
             [[[0]]] [[[0]]] embedded g1 = (out, hidden, cell, g2)
        \<and> select_hidden False hidden = Inr sel
        \<and> fc_forward small_model sel = Inr [[tanh (tanh 2 / 2) / 2]]
        \<and> forward small_model [[0]] gen1 = Inr ([[tanh (tanh 2 / 2) / 2]], g2)"
  proof -
    have r3: "select_hidden False hidden = Inr sel" using r(3) n by simp
    have r4: "fc_forward small_model sel = Inr [[tanh (tanh 2 / 2) / 2]]" using r(4) lg by simp
    have r5: "forward small_model [[0]] gen1 = Inr ([[tanh (tanh 2 / 2) / 2]], g2)"
      using r(5) lg by simp
    show ?thesis using r(1) r2 r3 r4 r5 by blast
  qed
  from forward_zero_state_and_draws[of small_model "[[0]]" gen0 _ "advance 320 gen0"] s
  have sd: "map_sum id fst (forward small_model [[0]] gen0)
       = map_sum id fst (forward small_model [[0]] (advance 320 gen0))" by blast
  from forward_zero_state_and_draws[of "eval_mode small_model" "[[0]]" gen1 _ _ "[[[0]], [[1, 0]]]"] t
  have ev: "forward (eval_mode small_model) [[0]] (after_calls (eval_mode small_model) [[[0]], [[1, 0]]] gen1)
       = forward (eval_mode small_model) [[0]] gen1" by blast
  show ?thesis using small_wf v ex s sd t ev by blast
qed

end
